theory Spec2Isabelle
  imports Main
begin

section \<open>Text extraction from a WordprocessingML package (read\_docx.py)\<close>

text \<open>
  The program opens a zip package, reads the member \<open>word/document.xml\<close>, parses it,
  walks paragraphs, runs and text elements with ElementTree's \<open>findall('.//tag')\<close>,
  joins the paragraph strings with newlines and writes them to the destination file.
  A Python \<open>str\<close> is modelled as the list of its code points, a \<open>bytes\<close> value as a
  list of 8-bit characters.
\<close>

type_synonym str = "nat list"
type_synonym bytes = "string"

text \<open>A string literal of the source (ASCII) as a \<open>str\<close>.\<close>

definition lit :: "string \<Rightarrow> str" where
  "lit s = map of_char s"

subsection \<open>The element tree\<close>

text \<open>
  An ElementTree element: its qualified tag, its attributes, the text before the first
  child (\<open>None\<close> when absent), the text after its end tag, and its children in order.
\<close>

datatype element =
  Element (tag: str) (attrib: "(str \<times> str) list")
          (elem_text: "str option") (tail: "str option") (children: "element list")

text \<open>The namespace dictionary of the source and the tags that \<open>w:p\<close>, \<open>w:r\<close>, \<open>w:t\<close> resolve to.\<close>

definition namespaces :: "(str \<times> str) list" where
  "namespaces =
     [(lit ''w'', lit ''http://schemas.openxmlformats.org/wordprocessingml/2006/main'')]"

definition qname :: "str \<Rightarrow> str \<Rightarrow> str" where
  "qname prefix local =
     (case map_of namespaces prefix of
        Some uri \<Rightarrow> lit ''{'' @ uri @ lit ''}'' @ local
      | None \<Rightarrow> prefix @ lit '':'' @ local)"

definition w_p :: str where "w_p = qname (lit ''w'') (lit ''p'')"
definition w_r :: str where "w_r = qname (lit ''w'') (lit ''r'')"
definition w_t :: str where "w_t = qname (lit ''w'') (lit ''t'')"

text \<open>\<open>Element.iter()\<close>: the element itself, then its descendants, in document order.\<close>

fun iter :: "element \<Rightarrow> element list" where
  "iter (Element tg ab tx ta cs) = Element tg ab tx ta cs # concat (map iter cs)"

text \<open>
  \<open>elem.findall('.//tag')\<close>: every element of \<open>elem.iter(tag)\<close> that is not \<open>elem\<close>
  itself, that is the proper descendants of \<open>elem\<close> carrying the tag, in document order.
\<close>

definition descendants :: "element \<Rightarrow> element list" where
  "descendants e = concat (map iter (children e))"

definition findall :: "element \<Rightarrow> str \<Rightarrow> element list" where
  "findall e tg = filter (\<lambda>x. tag x = tg) (descendants e)"

subsection \<open>The three nested loops\<close>

text \<open>
  \<open>for t in r.findall('.//w:t'): if t.text: p_text.append(t.text)\<close>, where \<open>None\<close>
  and the empty string are false.
\<close>

fun loop_t :: "element list \<Rightarrow> str list \<Rightarrow> str list" where
  "loop_t [] p_text = p_text"
| "loop_t (t # ts) p_text =
     (case elem_text t of
        None \<Rightarrow> loop_t ts p_text
      | Some s \<Rightarrow> if s \<noteq> [] then loop_t ts (p_text @ [s]) else loop_t ts p_text)"

text \<open>\<open>for r in p.findall('.//w:r'): ...\<close>\<close>

fun loop_r :: "element list \<Rightarrow> str list \<Rightarrow> str list" where
  "loop_r [] p_text = p_text"
| "loop_r (r # rs) p_text = loop_r rs (loop_t (findall r w_t) p_text)"

text \<open>\<open>sep.join(parts)\<close>\<close>

fun join :: "str \<Rightarrow> str list \<Rightarrow> str" where
  "join sep [] = []"
| "join sep [x] = x"
| "join sep (x # y # ys) = x @ sep @ join sep (y # ys)"

text \<open>The body of the paragraph loop: \<open>p_text = []\<close>, the run loop, \<open>''.join(p_text)\<close>.\<close>

definition paragraph_text :: "element \<Rightarrow> str" where
  "paragraph_text p = join [] (loop_r (findall p w_r) [])"

text \<open>\<open>for p in tree.findall('.//w:p'): ...; text.append(''.join(p_text))\<close>\<close>

fun loop_p :: "element list \<Rightarrow> str list \<Rightarrow> str list" where
  "loop_p [] txt = txt"
| "loop_p (p # ps) txt = loop_p ps (txt @ [paragraph_text p])"

text \<open>The string \<open>'\n'\<close>: the code point 10.\<close>

definition newline :: str where
  "newline = [10]"

text \<open>Lines 18 to 30 of the source: the list \<open>text\<close> and the string \<open>full_text\<close>.\<close>

definition extract_text :: "element \<Rightarrow> str list" where
  "extract_text tree = loop_p (findall tree w_p) []"

definition full_text :: "element \<Rightarrow> str" where
  "full_text tree = join newline (extract_text tree)"

subsection \<open>Exceptions, the libraries and the environment\<close>

datatype exn_class =
  FileNotFoundError | BadZipFile | KeyError | ParseError | OSError | UnicodeEncodeError
  | OtherException

text \<open>An exception object: its class (all of them subclasses of \<open>Exception\<close>) and \<open>str(e)\<close>.\<close>

datatype exn = Exn (exn_class: exn_class) (str: str)

text \<open>
  An opened archive maps a member name to what reading that member gives: its bytes, or
  the exception the read raises (a bad checksum, an unsupported compression).
\<close>

type_synonym archive = "str \<rightharpoonup> (exn + bytes)"

text \<open>
  The two parsers are library code and stay parameters: \<open>zipfile.ZipFile\<close> on the bytes
  of a file, and \<open>ET.fromstring\<close> on the bytes of the member.
\<close>

record lib =
  ZipFile :: "bytes \<Rightarrow> exn + archive"
  fromstring :: "bytes \<Rightarrow> exn + element"

text \<open>
  What opening a path for writing and writing to it does in the environment: it works,
  or \<open>open\<close> raises (permissions, missing directory) and nothing is created, or the
  write raises (disk full) after the file was truncated and a prefix of some length of
  the data reached it.
\<close>

datatype write_outcome = WriteOk | OpenFails exn | WriteFails exn nat

text \<open>
  The environment of a call. A path names a file (\<open>resolve\<close>), and two paths may name
  the same one (\<open>in.docx\<close> and \<open>./in.docx\<close>, a link); \<open>files\<close> gives the content of
  the files that exist. \<open>platform\<close> decides the line separator \<open>os.linesep\<close>, which a
  file opened in text mode writes for every \<open>'\n'\<close>. \<open>print_env\<close> gives the exception
  that printing a line to standard output raises, if any (a console that cannot encode
  the line, a closed pipe); \<open>stdout\<close> holds the lines printed so far.
\<close>

datatype platform = Posix | Windows

fun linesep :: "platform \<Rightarrow> str" where
  "linesep Posix = [10]"
| "linesep Windows = [13, 10]"

record world =
  resolve :: "str \<Rightarrow> nat"
  files :: "nat \<rightharpoonup> bytes"
  write_env :: "str \<Rightarrow> write_outcome"
  platform :: platform
  print_env :: "str \<Rightarrow> exn option"
  stdout :: "str list"

text \<open>\<open>print(line)\<close>: it raises, or the line is added to standard output.\<close>

definition print :: "world \<Rightarrow> str \<Rightarrow> (exn + unit) \<times> world" where
  "print w line =
     (case print_env w line of
        Some e \<Rightarrow> (Inl e, w)
      | None \<Rightarrow> (Inr (), w\<lparr>stdout := stdout w @ [line]\<rparr>))"

definition open_rb :: "world \<Rightarrow> str \<Rightarrow> exn + bytes" where
  "open_rb w path =
     (case files w (resolve w path) of
        None \<Rightarrow> Inl (Exn FileNotFoundError
                  (lit ''[Errno 2] No such file or directory: '' @ [39] @ path @ [39]))
      | Some content \<Rightarrow> Inr content)"

text \<open>
  \<open>str(e)\<close> of the \<open>KeyError\<close> that \<open>zipfile\<close> raises for a missing member: the
  message in double quotes, the member name in single quotes.
\<close>

definition no_item_message :: "str \<Rightarrow> str" where
  "no_item_message name =
     [34] @ lit ''There is no item named '' @ [39] @ name @ [39]
       @ lit '' in the archive'' @ [34]"

text \<open>\<open>z.read(name)\<close>: a missing member raises \<open>KeyError\<close>.\<close>

definition z_read :: "archive \<Rightarrow> str \<Rightarrow> exn + bytes" where
  "z_read z name =
     (case z name of
        None \<Rightarrow> Inl (Exn KeyError (no_item_message name))
      | Some r \<Rightarrow> r)"

text \<open>
  The UTF-8 encoding of one code point: one byte below \<open>0x80\<close>, two below \<open>0x800\<close>,
  three below \<open>0x10000\<close>, four below \<open>0x110000\<close>. A surrogate (\<open>0xD800\<close> to \<open>0xDFFF\<close>)
  has no encoding, and there is no code point from \<open>0x110000\<close> on.
\<close>

definition utf8_char :: "nat \<Rightarrow> bytes option" where
  "utf8_char c =
     (if c < 0x80 then Some [char_of c]
      else if c < 0x800 then
        Some [char_of (0xC0 + c div 0x40), char_of (0x80 + c mod 0x40)]
      else if 0xD800 \<le> c \<and> c < 0xE000 then None
      else if c < 0x10000 then
        Some [char_of (0xE0 + c div 0x1000), char_of (0x80 + c div 0x40 mod 0x40),
              char_of (0x80 + c mod 0x40)]
      else if c < 0x110000 then
        Some [char_of (0xF0 + c div 0x40000), char_of (0x80 + c div 0x1000 mod 0x40),
              char_of (0x80 + c div 0x40 mod 0x40), char_of (0x80 + c mod 0x40)]
      else None)"

text \<open>\<open>s.encode('utf-8')\<close>: the first code point without encoding raises.\<close>

fun utf8_encode :: "str \<Rightarrow> exn + bytes" where
  "utf8_encode [] = Inr []"
| "utf8_encode (c # cs) =
     (case utf8_char c of
        None \<Rightarrow> Inl (Exn UnicodeEncodeError
                  (lit ''utf-8 codec cannot encode character: surrogates not allowed''))
      | Some b \<Rightarrow>
          (case utf8_encode cs of
             Inl e \<Rightarrow> Inl e
           | Inr bs \<Rightarrow> Inr (b @ bs)))"

text \<open>
  The code points that have a UTF-8 encoding: the Unicode scalar values. An XML parser
  yields no others.
\<close>

definition scalar_value :: "nat \<Rightarrow> bool" where
  "scalar_value c = (c < 0xD800 \<or> (0xE000 \<le> c \<and> c < 0x110000))"

text \<open>
  Reading UTF-8 back, to say what written bytes mean: a lead byte below \<open>0x80\<close> is a
  code point; lead bytes from \<open>0xC0\<close>, \<open>0xE0\<close> and \<open>0xF0\<close> take one, two and
  three continuation bytes (\<open>0x80\<close> to \<open>0xBF\<close>) of six bits each.
\<close>

definition continuation :: "char \<Rightarrow> bool" where
  "continuation b = (0x80 \<le> (of_char b :: nat) \<and> (of_char b :: nat) < 0xC0)"

fun utf8_decode :: "bytes \<Rightarrow> str option" where
  "utf8_decode [] = Some []"
| "utf8_decode (b # bs) =
     (let n = (of_char b :: nat) in
      if n < 0x80 then map_option (\<lambda>s. n # s) (utf8_decode bs)
      else if 0xC0 \<le> n \<and> n < 0xE0 then
        (case bs of
           b1 # r \<Rightarrow>
             if continuation b1
             then map_option (\<lambda>s. ((n - 0xC0) * 0x40 + (of_char b1 - 0x80)) # s) (utf8_decode r)
             else None
         | _ \<Rightarrow> None)
      else if 0xE0 \<le> n \<and> n < 0xF0 then
        (case bs of
           b1 # b2 # r \<Rightarrow>
             if continuation b1 \<and> continuation b2
             then map_option (\<lambda>s. ((n - 0xE0) * 0x1000 + (of_char b1 - 0x80) * 0x40
                                     + (of_char b2 - 0x80)) # s) (utf8_decode r)
             else None
         | _ \<Rightarrow> None)
      else if 0xF0 \<le> n \<and> n < 0xF8 then
        (case bs of
           b1 # b2 # b3 # r \<Rightarrow>
             if continuation b1 \<and> continuation b2 \<and> continuation b3
             then map_option (\<lambda>s. ((n - 0xF0) * 0x40000 + (of_char b1 - 0x80) * 0x1000
                                     + (of_char b2 - 0x80) * 0x40 + (of_char b3 - 0x80)) # s)
                    (utf8_decode r)
             else None
         | _ \<Rightarrow> None)
      else None)"

text \<open>The newline translation of a file opened in text mode for writing.\<close>

definition translate_newlines :: "str \<Rightarrow> str \<Rightarrow> str" where
  "translate_newlines sep s = concat (map (\<lambda>c. if c = 10 then sep else [c]) s)"

text \<open>
  \<open>with open(path, 'w', encoding='utf-8') as f: f.write(s)\<close>. When \<open>open\<close> succeeds
  the file the path names is created or truncated; a text that cannot be encoded raises
  before any byte is written.
\<close>

definition write_text :: "world \<Rightarrow> str \<Rightarrow> str \<Rightarrow> (exn + unit) \<times> world" where
  "write_text w path s =
     (case write_env w path of
        OpenFails e \<Rightarrow> (Inl e, w)
      | WriteFails e n \<Rightarrow>
          (case utf8_encode (translate_newlines (linesep (platform w)) s) of
             Inl e' \<Rightarrow> (Inl e', w\<lparr>files := (files w)(resolve w path \<mapsto> [])\<rparr>)
           | Inr bs \<Rightarrow> (Inl e, w\<lparr>files := (files w)(resolve w path \<mapsto> take n bs)\<rparr>))
      | WriteOk \<Rightarrow>
          (case utf8_encode (translate_newlines (linesep (platform w)) s) of
             Inl e' \<Rightarrow> (Inl e', w\<lparr>files := (files w)(resolve w path \<mapsto> [])\<rparr>)
           | Inr bs \<Rightarrow> (Inr (), w\<lparr>files := (files w)(resolve w path \<mapsto> bs)\<rparr>)))"

subsection \<open>read\_docx\<close>

text \<open>
  Lines 8 to 11: open the archive, read the member, parse it. The first exception ends
  the \<open>try\<close> block; nothing has been written at that point.
\<close>

definition load_document :: "lib \<Rightarrow> world \<Rightarrow> str \<Rightarrow> exn + element" where
  "load_document l w file_path =
     (case open_rb w file_path of
        Inl e \<Rightarrow> Inl e
      | Inr content \<Rightarrow>
     (case ZipFile l content of
        Inl e \<Rightarrow> Inl e
      | Inr z \<Rightarrow>
     (case z_read z (lit ''word/document.xml'') of
        Inl e \<Rightarrow> Inl e
      | Inr xml_content \<Rightarrow> fromstring l xml_content)))"

text \<open>The two messages, lines 35 and 38.\<close>

definition success_line :: "str \<Rightarrow> str" where
  "success_line output_path = lit ''Successfully wrote content to '' @ output_path"

definition error_line :: "exn \<Rightarrow> str" where
  "error_line e = lit ''Error reading .docx file: '' @ str e"

text \<open>
  The \<open>try\<close> block, lines 8 to 36: an exception is returned with the world as it was
  when the exception was raised. The \<open>print\<close> of line 35 is inside the block.
\<close>

definition read_docx_try :: "lib \<Rightarrow> world \<Rightarrow> str \<Rightarrow> str \<Rightarrow> (exn + unit) \<times> world" where
  "read_docx_try l w file_path output_path =
     (case load_document l w file_path of
        Inl e \<Rightarrow> (Inl e, w)
      | Inr tree \<Rightarrow>
     (case write_text w output_path (full_text tree) of
        (Inl e, w') \<Rightarrow> (Inl e, w')
      | (Inr u, w') \<Rightarrow> print w' (success_line output_path)))"

text \<open>
  The handler, lines 37 to 39: it prints the message and returns \<open>False\<close>; an exception
  raised by this \<open>print\<close> is not caught by anything and leaves the function.
\<close>

definition handler :: "world \<Rightarrow> exn \<Rightarrow> (exn + bool) \<times> world" where
  "handler w e =
     (case print w (error_line e) of
        (Inl e', w') \<Rightarrow> (Inl e', w')
      | (Inr u, w') \<Rightarrow> (Inr False, w'))"

text \<open>
  The whole function: it returns \<open>True\<close>, returns \<open>False\<close>, or raises (\<open>Inl\<close>).
\<close>

definition read_docx :: "lib \<Rightarrow> world \<Rightarrow> str \<Rightarrow> str \<Rightarrow> (exn + bool) \<times> world" where
  "read_docx l w file_path output_path =
     (case read_docx_try l w file_path output_path of
        (Inr u, w') \<Rightarrow> (Inr True, w')
      | (Inl e, w') \<Rightarrow> handler w' e)"

subsection \<open>Positions in the tree\<close>

text \<open>
  \<open>findall\<close> returns element objects; to say which element of the document a result is,
  the same traversal is written once more carrying the position of every element: the
  list of child indices that leads to it from the element the search started at.
\<close>

fun iter_at :: "nat list \<Rightarrow> element \<Rightarrow> (nat list \<times> element) list"
and iter_children_at :: "nat list \<Rightarrow> nat \<Rightarrow> element list \<Rightarrow> (nat list \<times> element) list" where
  "iter_at pos (Element tg ab tx ta cs) =
     (pos, Element tg ab tx ta cs) # iter_children_at pos 0 cs"
| "iter_children_at pos i [] = []"
| "iter_children_at pos i (c # cs) = iter_at (pos @ [i]) c @ iter_children_at pos (Suc i) cs"

definition findall_at :: "nat list \<Rightarrow> element \<Rightarrow> str \<Rightarrow> (nat list \<times> element) list" where
  "findall_at pos e tg = filter (\<lambda>(q, x). tag x = tg) (iter_children_at pos 0 (children e))"

fun subtree_at :: "element \<Rightarrow> nat list \<Rightarrow> element option" where
  "subtree_at e [] = Some e"
| "subtree_at e (i # is) =
     (if i < length (children e) then subtree_at (children e ! i) is else None)"

text \<open>
  For a paragraph at position \<open>pp\<close>: the fragments its run loop collects, each with the
  position of the run it was collected under.
\<close>

definition run_sources :: "nat list \<Rightarrow> element \<Rightarrow> (nat list \<times> str) list" where
  "run_sources pp p =
     concat (map (\<lambda>(rp, r). map (\<lambda>s. (rp, s)) (loop_t (findall r w_t) []))
                 (findall_at pp p w_r))"

definition paragraph_sources :: "element \<Rightarrow> (nat list \<times> (nat list \<times> str) list) list" where
  "paragraph_sources tree = map (\<lambda>(pp, p). (pp, run_sources pp p)) (findall_at [] tree w_p)"

text \<open>
  The paragraph a run belongs to: the nearest proper ancestor of the position that is a
  \<open>w:p\<close> element.
\<close>

fun nearest_p :: "element \<Rightarrow> nat list \<Rightarrow> nat list \<Rightarrow> nat list option \<Rightarrow> nat list option" where
  "nearest_p e pos [] found = found"
| "nearest_p e pos (i # is) found =
     (if i < length (children e)
      then nearest_p (children e ! i) (pos @ [i]) is (if tag e = w_p then Some pos else found)
      else None)"

definition own_paragraph :: "element \<Rightarrow> nat list \<Rightarrow> nat list option" where
  "own_paragraph tree rp = nearest_p tree [] rp None"

text \<open>
  The scoping the specification asks for: every fragment of a paragraph's text was
  collected under a run that belongs to that paragraph.
\<close>

definition runs_scoped :: "element \<Rightarrow> bool" where
  "runs_scoped tree =
     list_all (\<lambda>(pp, srcs). list_all (\<lambda>(rp, s). own_paragraph tree rp = Some pp) srcs)
              (paragraph_sources tree)"

definition no_nested_paragraphs :: "element \<Rightarrow> bool" where
  "no_nested_paragraphs tree = list_all (\<lambda>p. findall p w_p = []) (findall tree w_p)"

subsection \<open>Counting paragraphs and lines\<close>

fun count_tag :: "str \<Rightarrow> element \<Rightarrow> nat" where
  "count_tag tg (Element t ab tx ta cs) =
     (if t = tg then 1 else 0) + sum_list (map (count_tag tg) cs)"

text \<open>The number of paragraph elements in the body: the \<open>w:p\<close> elements below the root.\<close>

definition num_paragraphs :: "element \<Rightarrow> nat" where
  "num_paragraphs tree = sum_list (map (count_tag w_p) (children tree))"

text \<open>The lines of a text, as \<open>s.split('\n')\<close> gives them.\<close>

fun split_lines :: "str \<Rightarrow> str list" where
  "split_lines [] = [[]]"
| "split_lines (c # cs) =
     (if c = 10 then [] # split_lines cs
      else (case split_lines cs of
              [] \<Rightarrow> [[c]]
            | ln # lns \<Rightarrow> (c # ln) # lns))"

text \<open>What one text element adds to the list of fragments.\<close>

definition fragment :: "element \<Rightarrow> str list" where
  "fragment t = (case elem_text t of None \<Rightarrow> [] | Some s \<Rightarrow> if s \<noteq> [] then [s] else [])"

subsection \<open>Sample documents and a sample environment\<close>

definition el :: "str \<Rightarrow> str option \<Rightarrow> element list \<Rightarrow> element" where
  "el tg tx cs = Element tg [] tx None cs"

definition body_tag :: str where "body_tag = qname (lit ''w'') (lit ''body'')"

definition document_tag :: str where "document_tag = qname (lit ''w'') (lit ''document'')"

text \<open>Three paragraphs: Hello, an empty one, and World split over two runs.\<close>

definition hello_doc :: element where
  "hello_doc = el document_tag None [el body_tag None
     [el w_p None [el w_r None [el w_t (Some (lit ''Hello'')) []]],
      el w_p None [],
      el w_p None [el w_r None [el w_t (Some (lit ''Wor'')) []],
                   el w_r None [el w_t None [], el w_t (Some (lit ''ld'')) []]]]]"

text \<open>A paragraph nested in a paragraph; the only run is in the inner one.\<close>

definition nested_doc :: element where
  "nested_doc = el document_tag None [el body_tag None
     [el w_p None [el w_p None [el w_r None [el w_t (Some (lit ''x'')) []]]]]]"

text \<open>One paragraph whose text element holds a line break: \<open>a\<close>, newline, \<open>b\<close>.\<close>

definition multiline_doc :: element where
  "multiline_doc = el document_tag None [el body_tag None
     [el w_p None [el w_r None [el w_t (Some [97, 10, 98]) []]]]]"

text \<open>A body without paragraphs, and a body whose only paragraph is empty.\<close>

definition empty_doc :: element where
  "empty_doc = el document_tag None [el body_tag None []]"

definition sole_empty_doc :: element where
  "sole_empty_doc = el document_tag None [el body_tag None [el w_p None []]]"

text \<open>
  One paragraph with the code points \<open>U+00E9\<close>, \<open>U+20AC\<close> and \<open>U+1F600\<close>: two, three
  and four bytes in UTF-8.
\<close>

definition unicode_doc :: element where
  "unicode_doc = el document_tag None [el body_tag None
     [el w_p None [el w_r None [el w_t (Some [0xE9, 0x20AC, 0x1F600]) []]]]]"

text \<open>
  A stand-in for the two parsers, to run the model on concrete files: a file \<open>PK\<close>
  followed by some bytes is an archive whose member \<open>word/document.xml\<close> holds those
  bytes (and an archive without members when there are none), and the markup is one of
  a few words.
\<close>

definition sample_lib :: lib where
  "sample_lib = \<lparr>
     ZipFile = (\<lambda>content.
       if take 2 content = ''PK''
       then Inr (\<lambda>name. if name = lit ''word/document.xml'' \<and> drop 2 content \<noteq> []
                         then Some (Inr (drop 2 content)) else None)
       else Inl (Exn BadZipFile (lit ''File is not a zip file''))),
     fromstring = (\<lambda>xml.
       if xml = ''hello'' then Inr hello_doc
       else if xml = ''nested'' then Inr nested_doc
       else if xml = ''multiline'' then Inr multiline_doc
       else if xml = ''empty'' then Inr empty_doc
       else if xml = ''unicode'' then Inr unicode_doc
       else if xml = ''sole'' then Inr sole_empty_doc
       else Inl (Exn ParseError (lit ''syntax error: line 1, column 0''))) \<rparr>"

text \<open>
  A sample environment. The paths \<open>in.docx\<close> and \<open>./in.docx\<close> name file 0, \<open>out.txt\<close>
  names file 1, every other path file 2; only file 0 exists. Every destination can be
  written, the platform is POSIX, and the console encodes ASCII only: printing
  a line with a code point from 128 on raises.
\<close>

definition sample_resolve :: "str \<Rightarrow> nat" where
  "sample_resolve path =
     (if path = lit ''in.docx'' \<or> path = lit ''./in.docx'' then 0
      else if path = lit ''out.txt'' then 1 else 2)"

definition ascii_console :: "str \<Rightarrow> exn option" where
  "ascii_console line =
     (if list_all (\<lambda>c. c < 128) line then None
      else Some (Exn UnicodeEncodeError (lit ''ascii codec cannot encode character'')))"

definition sample_world :: "bytes \<Rightarrow> world" where
  "sample_world content =
     \<lparr> resolve = sample_resolve, files = [0 \<mapsto> content], write_env = (\<lambda>path. WriteOk),
       platform = Posix, print_env = ascii_console, stdout = [] \<rparr>"

section \<open>Auxiliary facts\<close>

subsection \<open>Positions and the traversal\<close>

lemma iter_at_snd:
  "map snd (iter_at pos e) = iter e"
  "map snd (iter_children_at pos i cs) = concat (map iter cs)"
  by (induction pos e and pos i cs rule: iter_at_iter_children_at.induct) auto

lemma findall_at_snd: "map snd (findall_at pos e tg) = findall e tg"
proof -
  have "findall e tg = filter (\<lambda>x. tag x = tg) (map snd (iter_children_at pos 0 (children e)))"
    by (simp add: findall_def descendants_def iter_at_snd(2))
  also have "\<dots> = map snd (findall_at pos e tg)"
    by (simp add: findall_at_def filter_map o_def case_prod_unfold)
  finally show ?thesis by simp
qed

lemma subtree_at_append:
  "subtree_at e (a @ b) = (case subtree_at e a of None \<Rightarrow> None | Some x \<Rightarrow> subtree_at x b)"
  by (induction a arbitrary: e) auto

lemma iter_at_positions:
  "(q, x) \<in> set (iter_at pos e) \<longleftrightarrow> (\<exists>s. q = pos @ s \<and> subtree_at e s = Some x)"
  "(q, x) \<in> set (iter_children_at pos i cs) \<longleftrightarrow>
     (\<exists>j s. j < length cs \<and> q = pos @ (i + j) # s \<and> subtree_at (cs ! j) s = Some x)"
proof (induction pos e and pos i cs arbitrary: q x and q x rule: iter_at_iter_children_at.induct)
  case (1 pos tg ab tx ta cs)
  show ?case
  proof
    assume "(q, x) \<in> set (iter_at pos (Element tg ab tx ta cs))"
    then consider "q = pos" "x = Element tg ab tx ta cs"
      | "(q, x) \<in> set (iter_children_at pos 0 cs)" by auto
    then show "\<exists>s. q = pos @ s \<and> subtree_at (Element tg ab tx ta cs) s = Some x"
    proof cases
      case 1
      then show ?thesis by (intro exI[of _ "[]"]) simp
    next
      case 2
      then obtain j s where "j < length cs" "q = pos @ j # s" "subtree_at (cs ! j) s = Some x"
        using "1.IH" by auto
      then show ?thesis by (intro exI[of _ "j # s"]) simp
    qed
  next
    assume "\<exists>s. q = pos @ s \<and> subtree_at (Element tg ab tx ta cs) s = Some x"
    then obtain s where s: "q = pos @ s" "subtree_at (Element tg ab tx ta cs) s = Some x" by blast
    show "(q, x) \<in> set (iter_at pos (Element tg ab tx ta cs))"
    proof (cases s)
      case Nil
      with s have "q = pos" "x = Element tg ab tx ta cs" by simp_all
      then show ?thesis by simp
    next
      case (Cons j s')
      with s have "j < length cs" "subtree_at (cs ! j) s' = Some x"
        by (auto split: if_splits)
      with s Cons have "(q, x) \<in> set (iter_children_at pos 0 cs)"
        using "1.IH" by auto
      then show ?thesis by simp
    qed
  qed
next
  case (2 pos i)
  show ?case by simp
next
  case (3 pos i c cs)
  show ?case
  proof
    assume "(q, x) \<in> set (iter_children_at pos i (c # cs))"
    then consider "(q, x) \<in> set (iter_at (pos @ [i]) c)"
      | "(q, x) \<in> set (iter_children_at pos (Suc i) cs)" by auto
    then show "\<exists>j s. j < length (c # cs) \<and> q = pos @ (i + j) # s \<and> subtree_at ((c # cs) ! j) s = Some x"
    proof cases
      case 1
      then obtain s where "q = (pos @ [i]) @ s" "subtree_at c s = Some x"
        using "3.IH"(1) by blast
      then show ?thesis by (intro exI[of _ 0] exI[of _ s]) simp
    next
      case 2
      then obtain j s where "j < length cs" "q = pos @ (Suc i + j) # s" "subtree_at (cs ! j) s = Some x"
        using "3.IH"(2) by blast
      then show ?thesis by (intro exI[of _ "Suc j"] exI[of _ s]) simp
    qed
  next
    assume "\<exists>j s. j < length (c # cs) \<and> q = pos @ (i + j) # s \<and> subtree_at ((c # cs) ! j) s = Some x"
    then obtain j s where js: "j < length (c # cs)" "q = pos @ (i + j) # s"
      "subtree_at ((c # cs) ! j) s = Some x" by blast
    show "(q, x) \<in> set (iter_children_at pos i (c # cs))"
    proof (cases j)
      case 0
      with js have "(q, x) \<in> set (iter_at (pos @ [i]) c)"
        using "3.IH"(1) by auto
      then show ?thesis by simp
    next
      case (Suc j')
      with js have "j' < length cs" "q = pos @ (Suc i + j') # s" "subtree_at (cs ! j') s = Some x"
        by auto
      then have "(q, x) \<in> set (iter_children_at pos (Suc i) cs)"
        using "3.IH"(2) by blast
      then show ?thesis by simp
    qed
  qed
qed

lemma findall_at_positions:
  "(q, x) \<in> set (findall_at pos e tg) \<longleftrightarrow>
     (\<exists>s. s \<noteq> [] \<and> q = pos @ s \<and> subtree_at e s = Some x \<and> tag x = tg)"
proof
  assume "(q, x) \<in> set (findall_at pos e tg)"
  then have "tag x = tg" "(q, x) \<in> set (iter_children_at pos 0 (children e))"
    by (auto simp: findall_at_def)
  then obtain j s where "j < length (children e)" "q = pos @ j # s"
    "subtree_at (children e ! j) s = Some x"
    using iter_at_positions(2) by auto
  with \<open>tag x = tg\<close> show "\<exists>s. s \<noteq> [] \<and> q = pos @ s \<and> subtree_at e s = Some x \<and> tag x = tg"
    by (intro exI[of _ "j # s"]) simp
next
  assume "\<exists>s. s \<noteq> [] \<and> q = pos @ s \<and> subtree_at e s = Some x \<and> tag x = tg"
  then obtain s where s: "s \<noteq> []" "q = pos @ s" "subtree_at e s = Some x" "tag x = tg" by blast
  then obtain j s' where c: "s = j # s'" by (cases s) auto
  with s have "j < length (children e)" "subtree_at (children e ! j) s' = Some x"
    by (auto split: if_splits)
  with s c have "(q, x) \<in> set (iter_children_at pos 0 (children e))"
    using iter_at_positions(2)[of q x pos 0 "children e"] by auto
  with s show "(q, x) \<in> set (findall_at pos e tg)" by (simp add: findall_at_def)
qed

lemma findall_positions:
  "x \<in> set (findall e tg) \<longleftrightarrow> (\<exists>s. s \<noteq> [] \<and> subtree_at e s = Some x \<and> tag x = tg)"
proof -
  have "x \<in> set (findall e tg) \<longleftrightarrow> (\<exists>q. (q, x) \<in> set (findall_at [] e tg))"
    unfolding findall_at_snd[of "[]" e tg, symmetric] by force
  then show ?thesis by (simp add: findall_at_positions)
qed

lemma nearest_p_append:
  "subtree_at e a = Some x \<Longrightarrow>
   nearest_p e pos (a @ b) found = nearest_p x (pos @ a) b (nearest_p e pos a found)"
  by (induction a arbitrary: e pos found) (auto split: if_splits)

lemma nearest_p_unchanged:
  "subtree_at c s = Some r \<Longrightarrow>
   (\<forall>s' x. subtree_at c s' = Some x \<longrightarrow> tag x \<noteq> w_p) \<Longrightarrow>
   nearest_p c pos s found = found"
proof (induction s arbitrary: c pos found)
  case Nil
  then show ?case by simp
next
  case (Cons i s)
  from Cons.prems(1) have i: "i < length (children c)" "subtree_at (children c ! i) s = Some r"
    by (auto split: if_splits)
  have c: "tag c \<noteq> w_p" using Cons.prems(2)[rule_format, of "[]" c] by simp
  have sub: "\<forall>s' x. subtree_at (children c ! i) s' = Some x \<longrightarrow> tag x \<noteq> w_p"
  proof (intro allI impI)
    fix s' x assume "subtree_at (children c ! i) s' = Some x"
    with i have "subtree_at c (i # s') = Some x" by simp
    with Cons.prems(2) show "tag x \<noteq> w_p" by blast
  qed
  show ?case using i c Cons.IH[OF i(2) sub] by simp
qed

lemma nearest_p_own:
  assumes "subtree_at p q = Some r" "q \<noteq> []" "tag p = w_p"
    and "\<forall>s' x. s' \<noteq> [] \<longrightarrow> subtree_at p s' = Some x \<longrightarrow> tag x \<noteq> w_p"
  shows "nearest_p p pos q found = Some pos"
proof -
  from assms(2) obtain i s where q: "q = i # s" by (cases q) auto
  with assms(1) have i: "i < length (children p)" "subtree_at (children p ! i) s = Some r"
    by (auto split: if_splits)
  have sub: "\<forall>s' x. subtree_at (children p ! i) s' = Some x \<longrightarrow> tag x \<noteq> w_p"
  proof (intro allI impI)
    fix s' x assume "subtree_at (children p ! i) s' = Some x"
    with i have "subtree_at p (i # s') = Some x" by simp
    with assms(4) show "tag x \<noteq> w_p" by blast
  qed
  show ?thesis using q i assms(3) nearest_p_unchanged[OF i(2) sub] by simp
qed

subsection \<open>The loops as list functions\<close>

lemma loop_t_fragments: "loop_t ts acc = acc @ concat (map fragment ts)"
  by (induction ts arbitrary: acc) (auto simp: fragment_def split: option.splits)

lemma loop_r_fragments:
  "loop_r rs acc = acc @ concat (map (\<lambda>r. concat (map fragment (findall r w_t))) rs)"
  by (induction rs arbitrary: acc) (auto simp: loop_t_fragments)

lemma join_empty_sep: "join [] xs = concat xs"
  by (induction "[] :: str" xs rule: join.induct) auto

lemma join_Cons: "join sep (p # ps) = p @ concat (map (\<lambda>q. sep @ q) ps)"
  by (induction sep "p # ps" arbitrary: p ps rule: join.induct) auto

lemma loop_p_map: "loop_p ps acc = acc @ map paragraph_text ps"
  by (induction ps arbitrary: acc) auto

lemma extract_text_map: "extract_text tree = map paragraph_text (findall tree w_p)"
  by (simp add: extract_text_def loop_p_map)

lemma count_tag_iter: "length (filter (\<lambda>x. tag x = tg) (iter e)) = count_tag tg e"
proof (induction e)
  case (Element t ab tx ta cs)
  have "length (filter (\<lambda>x. tag x = tg) (concat (map iter cs))) = sum_list (map (count_tag tg) cs)"
    using Element.IH by (induction cs) auto
  then show ?case by simp
qed

lemma length_findall: "length (findall e tg) = sum_list (map (count_tag tg) (children e))"
proof -
  have "length (filter (\<lambda>x. tag x = tg) (concat (map iter cs))) = sum_list (map (count_tag tg) cs)"
    for cs by (induction cs) (auto simp: count_tag_iter)
  then show ?thesis by (simp add: findall_def descendants_def)
qed

lemma length_extract_text: "length (extract_text tree) = num_paragraphs tree"
  by (simp add: extract_text_map length_findall num_paragraphs_def)

lemma run_sources_text: "concat (map snd (run_sources pp p)) = paragraph_text p"
proof -
  have "map snd (run_sources pp p) =
        concat (map (\<lambda>r. loop_t (findall r w_t) []) (map snd (findall_at pp p w_r)))"
    by (simp add: run_sources_def map_concat o_def case_prod_unfold)
  then show ?thesis
    by (simp add: findall_at_snd paragraph_text_def join_empty_sep loop_r_fragments
        loop_t_fragments)
qed

lemma paragraph_sources_text:
  "extract_text tree = map (\<lambda>(pp, srcs). concat (map snd srcs)) (paragraph_sources tree)"
proof -
  have "map (\<lambda>(pp, srcs). concat (map snd srcs)) (paragraph_sources tree) =
        map paragraph_text (map snd (findall_at [] tree w_p))"
    by (simp add: paragraph_sources_def o_def case_prod_unfold run_sources_text)
  then show ?thesis by (simp add: findall_at_snd extract_text_map)
qed

lemma run_sources_inside:
  assumes "(pp, p) \<in> set (findall_at [] tree w_p)" and "(rp, s) \<in> set (run_sources pp p)"
  shows "\<exists>q r. q \<noteq> [] \<and> rp = pp @ q \<and> subtree_at p q = Some r \<and> tag r = w_r
           \<and> subtree_at tree pp = Some p \<and> tag p = w_p"
proof -
  from assms(1) have p: "subtree_at tree pp = Some p" "tag p = w_p"
    by (auto simp: findall_at_positions)
  from assms(2) obtain r where "(rp, r) \<in> set (findall_at pp p w_r)"
    by (auto simp: run_sources_def)
  then obtain q where "q \<noteq> []" "rp = pp @ q" "subtree_at p q = Some r" "tag r = w_r"
    by (auto simp: findall_at_positions)
  with p show ?thesis by blast
qed

lemma runs_scoped_without_nesting:
  assumes "no_nested_paragraphs tree"
  shows "runs_scoped tree"
proof -
  have "own_paragraph tree rp = Some pp"
    if a: "(pp, p) \<in> set (findall_at [] tree w_p)" and b: "(rp, s) \<in> set (run_sources pp p)"
    for pp p rp s
  proof -
    from run_sources_inside[OF a b] obtain q r where
      q: "q \<noteq> []" "rp = pp @ q" "subtree_at p q = Some r"
      and p: "subtree_at tree pp = Some p" "tag p = w_p" by blast
    from a have "p \<in> set (findall tree w_p)"
      unfolding findall_at_snd[of "[]" tree w_p, symmetric] by force
    with assms have "findall p w_p = []"
      by (auto simp: no_nested_paragraphs_def list_all_iff)
    then have flat: "\<forall>s' x. s' \<noteq> [] \<longrightarrow> subtree_at p s' = Some x \<longrightarrow> tag x \<noteq> w_p"
      using findall_positions[of _ p w_p] by auto
    have "own_paragraph tree rp = nearest_p p pp q (nearest_p tree [] pp None)"
      using nearest_p_append[OF p(1), of "[]" q None] q(2) by (simp add: own_paragraph_def)
    also have "\<dots> = Some pp"
      by (rule nearest_p_own[OF q(3) q(1) p(2) flat])
    finally show ?thesis .
  qed
  then show ?thesis
    by (auto simp: runs_scoped_def list_all_iff paragraph_sources_def)
qed

subsection \<open>Lines of the joined text\<close>

lemma count_newline_join:
  assumes "\<forall>s \<in> set ps. (10::nat) \<notin> set s" and "ps \<noteq> []"
  shows "Suc (count_list (join newline ps) ((10::nat))) = length ps"
proof -
  have z: "count_list s ((10::nat)) = 0" if "s \<in> set ps" for s
    using that assms(1) by (simp add: count_list_0_iff)
  have "count_list (concat (map (\<lambda>q. newline @ q) qs)) ((10::nat)) = length qs"
    if "set qs \<subseteq> set ps" for qs
    using that by (induction qs) (auto simp: newline_def z)
  with assms(2) z show ?thesis
    by (cases ps) (auto simp: join_Cons)
qed

lemma split_lines_plain: "(10::nat) \<notin> set s \<Longrightarrow> split_lines s = [s]"
  by (induction s) auto

lemma split_lines_append:
  "(10::nat) \<notin> set s \<Longrightarrow> split_lines (s @ (10::nat) # rest) = s # split_lines rest"
  by (induction s) auto

lemma split_lines_join:
  assumes "\<forall>s \<in> set ps. (10::nat) \<notin> set s" and "ps \<noteq> []"
  shows "split_lines (join newline ps) = ps"
  using assms
proof (induction newline ps rule: join.induct)
  case 1
  then show ?case by simp
next
  case (2 x)
  then show ?case by (simp add: split_lines_plain)
next
  case (3 x y ys)
  then show ?case by (simp add: newline_def split_lines_append)
qed

subsection \<open>The steps of read\_docx\<close>

lemma load_document_Inr:
  "load_document l w fp = Inr tree \<longleftrightarrow>
     (\<exists>c z x. files w (resolve w fp) = Some c \<and> ZipFile l c = Inr z
        \<and> z_read z (lit ''word/document.xml'') = Inr x \<and> fromstring l x = Inr tree)"
  by (auto simp: load_document_def open_rb_def split: option.splits sum.splits)



lemma print_ok:
  "print_env w line = None \<Longrightarrow> print w line = (Inr (), w\<lparr>stdout := stdout w @ [line]\<rparr>)"
  by (simp add: print_def)

lemma print_raises: "print_env w line = Some e \<Longrightarrow> print w line = (Inl e, w)"
  by (simp add: print_def)

lemma print_frame [simp]:
  "files (snd (print w line)) = files w"
  "resolve (snd (print w line)) = resolve w"
  "write_env (snd (print w line)) = write_env w"
  "platform (snd (print w line)) = platform w"
  "print_env (snd (print w line)) = print_env w"
  by (simp_all add: print_def split: option.splits)

lemma handler_ok:
  "print_env w (error_line e) = None \<Longrightarrow>
   handler w e = (Inr False, w\<lparr>stdout := stdout w @ [error_line e]\<rparr>)"
  by (simp add: handler_def print_def)

lemma handler_raises:
  "print_env w (error_line e) = Some e' \<Longrightarrow> handler w e = (Inl e', w)"
  by (simp add: handler_def print_def)

lemma handler_frame [simp]:
  "files (snd (handler w e)) = files w"
  "resolve (snd (handler w e)) = resolve w"
  "write_env (snd (handler w e)) = write_env w"
  "platform (snd (handler w e)) = platform w"
  "print_env (snd (handler w e)) = print_env w"
  by (simp_all add: handler_def print_def split: option.splits)

lemma handler_not_True: "fst (handler w e) \<noteq> Inr True"
  by (simp add: handler_def print_def split: option.splits)

lemma write_text_frame [simp]:
  "resolve (snd (write_text w path s)) = resolve w"
  "write_env (snd (write_text w path s)) = write_env w"
  "platform (snd (write_text w path s)) = platform w"
  "print_env (snd (write_text w path s)) = print_env w"
  "stdout (snd (write_text w path s)) = stdout w"
  by (simp_all add: write_text_def split: write_outcome.splits sum.splits)

lemma write_text_files:
  "i \<noteq> resolve w path \<Longrightarrow> files (snd (write_text w path s)) i = files w i"
  by (simp add: write_text_def split: write_outcome.splits sum.splits)

lemma write_text_ok:
  "write_env w path = WriteOk \<Longrightarrow>
   utf8_encode (translate_newlines (linesep (platform w)) s) = Inr bs \<Longrightarrow>
   write_text w path s = (Inr (), w\<lparr>files := (files w)(resolve w path \<mapsto> bs)\<rparr>)"
  by (simp add: write_text_def)

lemma write_text_Inr:
  "write_text w path s = (Inr u, w') \<longleftrightarrow>
     write_env w path = WriteOk
     \<and> (\<exists>bs. utf8_encode (translate_newlines (linesep (platform w)) s) = Inr bs
          \<and> w' = w\<lparr>files := (files w)(resolve w path \<mapsto> bs)\<rparr>)"
  by (auto simp: write_text_def split: write_outcome.splits sum.splits)

lemma read_docx_load_fails:
  "load_document l w fp = Inl e \<Longrightarrow> read_docx l w fp op = handler w e"
  by (simp add: read_docx_def read_docx_try_def)

lemma read_docx_write_raises:
  "load_document l w fp = Inr tree \<Longrightarrow> write_text w op (full_text tree) = (Inl e, w') \<Longrightarrow>
   read_docx l w fp op = handler w' e"
  by (simp add: read_docx_def read_docx_try_def)

lemma read_docx_print_raises:
  assumes "load_document l w fp = Inr tree" and "write_text w op (full_text tree) = (Inr u, w')"
    and "print_env w (success_line op) = Some e"
  shows "read_docx l w fp op = handler w' e"
proof -
  have "print_env w' = print_env w"
    using write_text_frame(4)[of w op "full_text tree"] assms(2) by simp
  with assms show ?thesis
    by (simp add: read_docx_def read_docx_try_def print_def)
qed

lemma read_docx_succeeds:
  assumes "load_document l w fp = Inr tree" and "write_text w op (full_text tree) = (Inr u, w')"
    and "print_env w (success_line op) = None"
  shows "read_docx l w fp op = (Inr True, w'\<lparr>stdout := stdout w' @ [success_line op]\<rparr>)"
proof -
  have "print_env w' = print_env w"
    using write_text_frame(4)[of w op "full_text tree"] assms(2) by simp
  with assms show ?thesis
    by (simp add: read_docx_def read_docx_try_def print_def)
qed

lemma read_docx_cases:
  obtains (load_failed) e where "load_document l w fp = Inl e" "read_docx l w fp op = handler w e"
  | (write_failed) tree e w' where "load_document l w fp = Inr tree"
      "write_text w op (full_text tree) = (Inl e, w')" "read_docx l w fp op = handler w' e"
  | (message_failed) tree w' e where "load_document l w fp = Inr tree"
      "write_text w op (full_text tree) = (Inr (), w')" "print_env w (success_line op) = Some e"
      "read_docx l w fp op = handler w' e"
  | (succeeded) tree w' where "load_document l w fp = Inr tree"
      "write_text w op (full_text tree) = (Inr (), w')" "print_env w (success_line op) = None"
      "read_docx l w fp op = (Inr True, w'\<lparr>stdout := stdout w' @ [success_line op]\<rparr>)"
proof (cases "load_document l w fp")
  case (Inl e)
  then show ?thesis using load_failed read_docx_load_fails by blast
next
  case (Inr tree)
  obtain r w' where wt: "write_text w op (full_text tree) = (r, w')"
    by (cases "write_text w op (full_text tree)")
  show ?thesis
  proof (cases r)
    case (Inl e)
    with Inr wt show ?thesis using write_failed read_docx_write_raises by blast
  next
    case (Inr u)
    with wt have wt': "write_text w op (full_text tree) = (Inr (), w')" by simp
    show ?thesis
    proof (cases "print_env w (success_line op)")
      case None
      with \<open>load_document l w fp = Inr tree\<close> wt' show ?thesis
        using succeeded read_docx_succeeds by blast
    next
      case (Some e)
      with \<open>load_document l w fp = Inr tree\<close> wt' show ?thesis
        using message_failed read_docx_print_raises by blast
    qed
  qed
qed

lemma snd_write_text:
  "write_text w op s = (r, w') \<Longrightarrow> w' = snd (write_text w op s)"
  by simp

lemma read_docx_frame:
  "i \<noteq> resolve w op \<Longrightarrow> files (snd (read_docx l w fp op)) i = files w i"
proof (cases rule: read_docx_cases[of l w fp op])
  case (load_failed e)
  then show ?thesis by simp
next
  case (write_failed tree e w')
  assume "i \<noteq> resolve w op"
  with write_failed(2,3) show ?thesis
    using write_text_files[of i w op "full_text tree"] by simp
next
  case (message_failed tree w' e)
  assume "i \<noteq> resolve w op"
  with message_failed(2,4) show ?thesis
    using write_text_files[of i w op "full_text tree"] by simp
next
  case (succeeded tree w')
  assume "i \<noteq> resolve w op"
  with succeeded(2,4) show ?thesis
    using write_text_files[of i w op "full_text tree"] by simp
qed

lemma read_docx_env:
  "resolve (snd (read_docx l w fp op)) = resolve w"
  "write_env (snd (read_docx l w fp op)) = write_env w"
  "platform (snd (read_docx l w fp op)) = platform w"
  "print_env (snd (read_docx l w fp op)) = print_env w"
proof -
  have "resolve (snd (read_docx l w fp op)) = resolve w
    \<and> write_env (snd (read_docx l w fp op)) = write_env w
    \<and> platform (snd (read_docx l w fp op)) = platform w
    \<and> print_env (snd (read_docx l w fp op)) = print_env w"
  proof (cases rule: read_docx_cases[of l w fp op])
    case (load_failed e)
    then show ?thesis by simp
  next
    case (write_failed tree e w')
    then show ?thesis using write_text_frame[of w op "full_text tree"] by simp
  next
    case (message_failed tree w' e)
    then show ?thesis using write_text_frame[of w op "full_text tree"] by simp
  next
    case (succeeded tree w')
    then show ?thesis using write_text_frame[of w op "full_text tree"] by simp
  qed
  then show "resolve (snd (read_docx l w fp op)) = resolve w"
    "write_env (snd (read_docx l w fp op)) = write_env w"
    "platform (snd (read_docx l w fp op)) = platform w"
    "print_env (snd (read_docx l w fp op)) = print_env w"
    by simp_all
qed

subsection \<open>The text layer\<close>

lemma translate_newlines_posix: "translate_newlines [10] s = s"
  by (induction s) (auto simp: translate_newlines_def)

lemma utf8_encode_ascii:
  "list_all (\<lambda>c. c < 128) s \<Longrightarrow> utf8_encode s = Inr (map char_of s)"
  by (induction s) (auto simp: utf8_char_def)

lemma utf8_encode_Nil_iff: "utf8_encode s = Inr [] \<longleftrightarrow> s = []"
  by (cases s) (auto simp: utf8_char_def split: option.splits sum.splits if_splits)

lemma split3: "(c::nat) div 4096 * 4096 + c div 64 mod 64 * 64 + c mod 64 = c"
proof -
  define q x y z where "q = c div 64" and "x = c div 4096" and "y = c div 64 mod 64" and "z = c mod 64"
  have 1: "c = q * 64 + z" unfolding q_def z_def by (rule div_mult_mod_eq[symmetric])
  have "c div 64 div 64 = c div (64 * 64)" by (rule div_mult2_eq[symmetric])
  then have 2: "q div 64 = x" unfolding q_def x_def by simp
  have "q = q div 64 * 64 + q mod 64" by (rule div_mult_mod_eq[symmetric])
  then have 3: "q = x * 64 + y" unfolding 2 unfolding q_def y_def .
  have "x * 4096 + y * 64 + z = c" unfolding 1 3 by simp
  then show ?thesis unfolding x_def y_def z_def .
qed

lemma split4:
  "(c::nat) div 262144 * 262144 + c div 4096 mod 64 * 4096 + c div 64 mod 64 * 64 + c mod 64 = c"
proof -
  define p x y where "p = c div 4096" and "x = c div 262144" and "y = c div 4096 mod 64"
  have "c div 4096 div 64 = c div (4096 * 64)" by (rule div_mult2_eq[symmetric])
  then have 2: "p div 64 = x" unfolding p_def x_def by simp
  have "p = p div 64 * 64 + p mod 64" by (rule div_mult_mod_eq[symmetric])
  then have 3: "p = x * 64 + y" unfolding 2 unfolding p_def y_def .
  have "p * 4096 + c div 64 mod 64 * 64 + c mod 64 = c"
    unfolding p_def by (rule split3)
  then have "x * 262144 + y * 4096 + c div 64 mod 64 * 64 + c mod 64 = c"
    unfolding 3 by simp
  then show ?thesis unfolding x_def y_def .
qed

lemma decode1:
  "x < 0x80 \<Longrightarrow> utf8_decode (char_of (x::nat) # rest) = map_option (\<lambda>s. x # s) (utf8_decode rest)"
  by (simp add: Let_def)

lemma decode2:
  "x < 0x20 \<Longrightarrow> y < 0x40 \<Longrightarrow>
   utf8_decode (char_of (0xC0 + x :: nat) # char_of (0x80 + y :: nat) # rest) =
     map_option (\<lambda>s. (x * 0x40 + y) # s) (utf8_decode rest)"
  by (simp add: Let_def continuation_def)

lemma decode3:
  "x < 0x10 \<Longrightarrow> y < 0x40 \<Longrightarrow> z < 0x40 \<Longrightarrow>
   utf8_decode (char_of (0xE0 + x :: nat) # char_of (0x80 + y :: nat) # char_of (0x80 + z :: nat) # rest) =
     map_option (\<lambda>s. (x * 0x1000 + y * 0x40 + z) # s) (utf8_decode rest)"
  by (simp add: Let_def continuation_def)

lemma decode4:
  "x < 8 \<Longrightarrow> y < 0x40 \<Longrightarrow> z < 0x40 \<Longrightarrow> u < 0x40 \<Longrightarrow>
   utf8_decode (char_of (0xF0 + x :: nat) # char_of (0x80 + y :: nat) # char_of (0x80 + z :: nat)
                 # char_of (0x80 + u :: nat) # rest) =
     map_option (\<lambda>s. (x * 0x40000 + y * 0x1000 + z * 0x40 + u) # s) (utf8_decode rest)"
  by (simp add: Let_def continuation_def)

lemma decode_one:
  assumes "utf8_char c = Some b"
  shows "utf8_decode (b @ rest) = map_option (\<lambda>s. c # s) (utf8_decode rest)"
proof -
  consider (one) "c < 0x80" "b = [char_of c]"
    | (two) "c < 0x800" "b = [char_of (0xC0 + c div 0x40), char_of (0x80 + c mod 0x40)]"
    | (three) "c < 0x10000"
        "b = [char_of (0xE0 + c div 0x1000), char_of (0x80 + c div 0x40 mod 0x40),
              char_of (0x80 + c mod 0x40)]"
    | (four) "c < 0x110000"
        "b = [char_of (0xF0 + c div 0x40000), char_of (0x80 + c div 0x1000 mod 0x40),
              char_of (0x80 + c div 0x40 mod 0x40), char_of (0x80 + c mod 0x40)]"
    using assms unfolding utf8_char_def by (simp split: if_splits)
  then show ?thesis
  proof cases
    case one
    then show ?thesis using decode1[of c rest] by simp
  next
    case two
    have "c div 0x40 < 0x20" using two(1) by (simp add: div_less_iff_less_mult)
    moreover have "c mod 0x40 < 0x40" by simp
    ultimately have "utf8_decode (b @ rest) =
        map_option (\<lambda>s. (c div 0x40 * 0x40 + c mod 0x40) # s) (utf8_decode rest)"
      unfolding two(2) using decode2 by simp
    then show ?thesis by (simp only: div_mult_mod_eq)
  next
    case three
    have "c div 0x1000 < 0x10" using three(1) by (simp add: div_less_iff_less_mult)
    moreover have "c div 0x40 mod 0x40 < 0x40" "c mod 0x40 < 0x40" by simp_all
    ultimately have "utf8_decode (b @ rest) =
        map_option (\<lambda>s. (c div 0x1000 * 0x1000 + c div 0x40 mod 0x40 * 0x40 + c mod 0x40) # s)
          (utf8_decode rest)"
      unfolding three(2) using decode3 by simp
    then show ?thesis by (simp only: split3)
  next
    case four
    have "c div 0x40000 < 8" using four(1) by (simp add: div_less_iff_less_mult)
    moreover have "c div 0x1000 mod 0x40 < 0x40" "c div 0x40 mod 0x40 < 0x40" "c mod 0x40 < 0x40"
      by simp_all
    ultimately have "utf8_decode (b @ rest) =
        map_option (\<lambda>s. (c div 0x40000 * 0x40000 + c div 0x1000 mod 0x40 * 0x1000
                           + c div 0x40 mod 0x40 * 0x40 + c mod 0x40) # s)
          (utf8_decode rest)"
      unfolding four(2) using decode4 by simp
    then show ?thesis by (simp only: split4)
  qed
qed

lemma utf8_decode_encode: "utf8_encode s = Inr bs \<Longrightarrow> utf8_decode bs = Some s"
proof (induction s arbitrary: bs)
  case Nil
  then show ?case by simp
next
  case (Cons c s)
  then obtain b bs' where "utf8_char c = Some b" "utf8_encode s = Inr bs'" "bs = b @ bs'"
    by (auto split: option.splits sum.splits)
  with Cons.IH[of bs'] show ?case by (simp add: decode_one)
qed

lemma utf8_char_scalar: "scalar_value c \<Longrightarrow> \<exists>b. utf8_char c = Some b"
  by (auto simp: scalar_value_def utf8_char_def)

lemma utf8_encode_scalar: "list_all scalar_value s \<Longrightarrow> \<exists>bs. utf8_encode s = Inr bs"
proof (induction s)
  case Nil
  then show ?case by simp
next
  case (Cons c s)
  then obtain b bs where "utf8_char c = Some b" "utf8_encode s = Inr bs"
    using utf8_char_scalar[of c] by auto
  then show ?case by simp
qed

lemma translate_newlines_scalar:
  "list_all scalar_value s \<Longrightarrow> list_all scalar_value (translate_newlines (linesep p) s)"
  by (induction s) (cases p; auto simp: translate_newlines_def scalar_value_def)+

lemma lit_append: "lit (a @ b) = lit a @ lit b"
  by (simp add: lit_def)

lemma utf8_encode_lit:
  "list_all (\<lambda>c. (of_char c :: nat) < 128) x \<Longrightarrow> utf8_encode (lit x) = Inr x"
proof -
  assume "list_all (\<lambda>c. (of_char c :: nat) < 128) x"
  then have "list_all (\<lambda>c. c < 128) (lit x)"
    by (simp add: lit_def list_all_iff)
  then have "utf8_encode (lit x) = Inr (map char_of (lit x))"
    by (rule utf8_encode_ascii)
  then show ?thesis by (simp add: lit_def)
qed

subsection \<open>Further facts about the steps\<close>



lemma read_docx_written:
  assumes "load_document l w fp = Inr tree" and "write_text w op (full_text tree) = (Inr u, w')"
  shows "files (snd (read_docx l w fp op)) = files w'"
proof (cases "print_env w (success_line op)")
  case None
  from read_docx_succeeds[OF assms None] show ?thesis by simp
next
  case (Some e)
  from read_docx_print_raises[OF assms Some] show ?thesis by simp
qed

lemma translate_no_newline: "10 \<notin> set s \<Longrightarrow> translate_newlines sep s = s"
  by (induction s) (auto simp: translate_newlines_def)

lemma read_docx_try_Inl:
  "read_docx_try l w fp op = (Inl e, w') \<longleftrightarrow>
     load_document l w fp = Inl e \<and> w' = w
     \<or> (\<exists>tree. load_document l w fp = Inr tree
           \<and> write_text w op (full_text tree) = (Inl e, w'))
     \<or> (\<exists>tree. load_document l w fp = Inr tree
           \<and> write_text w op (full_text tree) = (Inr (), w')
           \<and> print_env w (success_line op) = Some e)"
proof (cases "load_document l w fp")
  case (Inl e0)
  then show ?thesis by (auto simp: read_docx_try_def)
next
  case (Inr tree)
  obtain r w1 where wt: "write_text w op (full_text tree) = (r, w1)"
    by (cases "write_text w op (full_text tree)")
  have pe: "print_env w1 = print_env w"
    using write_text_frame(4)[of w op "full_text tree"] wt by simp
  show ?thesis
  proof (cases r)
    case (Inl e1)
    with Inr wt show ?thesis by (auto simp: read_docx_try_def)
  next
    case (Inr u)
    with \<open>load_document l w fp = Inr tree\<close> wt pe show ?thesis
      by (auto simp: read_docx_try_def print_def split: option.splits)
  qed
qed

lemma read_docx_try_Inr:
  "read_docx_try l w fp op = (Inr u, w') \<longleftrightarrow>
     (\<exists>tree w1. load_document l w fp = Inr tree
        \<and> write_text w op (full_text tree) = (Inr (), w1)
        \<and> print_env w (success_line op) = None
        \<and> w' = w1\<lparr>stdout := stdout w1 @ [success_line op]\<rparr>)"
proof (cases "load_document l w fp")
  case (Inl e0)
  then show ?thesis by (auto simp: read_docx_try_def)
next
  case (Inr tree)
  obtain r w1 where wt: "write_text w op (full_text tree) = (r, w1)"
    by (cases "write_text w op (full_text tree)")
  have pe: "print_env w1 = print_env w"
    using write_text_frame(4)[of w op "full_text tree"] wt by simp
  show ?thesis
  proof (cases r)
    case (Inl e1)
    with Inr wt show ?thesis by (auto simp: read_docx_try_def)
  next
    case (Inr u)
    with \<open>load_document l w fp = Inr tree\<close> wt pe show ?thesis
      by (auto simp: read_docx_try_def print_def split: option.splits)
  qed
qed

lemma write_text_print_env:
  "write_text w op s = (r, w') \<Longrightarrow> print_env w' = print_env w"
  using write_text_frame(4)[of w op s] by simp

lemma print_print_env:
  "print w line = (r, w') \<Longrightarrow> print_env w' = print_env w"
  using print_frame(5)[of w line] by simp

lemma read_docx_try_print_env:
  "read_docx_try l w fp op = (r, w') \<Longrightarrow> print_env w' = print_env w"
  by (auto simp: read_docx_try_def split: sum.splits prod.splits
      dest!: write_text_print_env print_print_env)





lemma handler_stdout:
  "stdout (snd (handler w e)) = stdout w \<or> stdout (snd (handler w e)) = stdout w @ [error_line e]"
  by (simp add: handler_def print_def split: option.splits)

lemma read_docx_stdout:
  "stdout (snd (read_docx l w fp op)) = stdout w
   \<or> (\<exists>line. stdout (snd (read_docx l w fp op)) = stdout w @ [line])"
proof (cases rule: read_docx_cases[of l w fp op])
  case (load_failed e)
  then show ?thesis using handler_stdout[of w e] by auto
next
  case (write_failed tree e w')
  have "stdout w' = stdout w"
    using write_text_frame(5)[of w op "full_text tree"] write_failed(2) by simp
  with write_failed show ?thesis using handler_stdout[of w' e] by auto
next
  case (message_failed tree w' e)
  have "stdout w' = stdout w"
    using write_text_frame(5)[of w op "full_text tree"] message_failed(2) by simp
  with message_failed show ?thesis using handler_stdout[of w' e] by auto
next
  case (succeeded tree w')
  have "stdout w' = stdout w"
    using write_text_frame(5)[of w op "full_text tree"] succeeded(2) by simp
  with succeeded show ?thesis by simp
qed

subsection \<open>Facts about the sample documents\<close>

lemma lit_Nil_iff [simp]: "lit s = [] \<longleftrightarrow> s = []"
  by (simp add: lit_def)

lemma tags_distinct [simp]:
  "w_p \<noteq> w_r" "w_r \<noteq> w_p" "w_p \<noteq> w_t" "w_t \<noteq> w_p" "w_r \<noteq> w_t" "w_t \<noteq> w_r"
  "body_tag \<noteq> w_p" "body_tag \<noteq> w_r" "body_tag \<noteq> w_t"
  "document_tag \<noteq> w_p" "document_tag \<noteq> w_r" "document_tag \<noteq> w_t"
  by (simp_all add: w_p_def w_r_def w_t_def body_tag_def document_tag_def qname_def
      namespaces_def lit_def)

lemmas eval_defs = el_def findall_def descendants_def findall_at_def paragraph_text_def
  extract_text_def full_text_def newline_def

lemma hello_doc_texts: "extract_text hello_doc = [lit ''Hello'', [], lit ''World'']"
  by (simp add: hello_doc_def eval_defs lit_def)

lemma hello_full_text: "full_text hello_doc = lit ''Hello'' @ [10, 10] @ lit ''World''"
  by (simp add: full_text_def hello_doc_texts newline_def)

lemmas sample_defs = load_document_def open_rb_def sample_lib_def sample_world_def z_read_def
  sample_resolve_def lit_def

lemma sample_load_hello:
  "load_document sample_lib (sample_world ''PKhello'') (lit ''in.docx'') = Inr hello_doc"
  by (simp add: sample_defs)

lemma sample_load_empty:
  "load_document sample_lib (sample_world ''PKempty'') (lit ''in.docx'') = Inr empty_doc"
  by (simp add: sample_defs)


lemma sample_load_unicode:
  "load_document sample_lib (sample_world ''PKunicode'') (lit ''in.docx'') = Inr unicode_doc"
  by (simp add: sample_defs)

lemma sample_world_fields [simp]:
  "resolve (sample_world c) = sample_resolve"
  "files (sample_world c) = [0 \<mapsto> c]"
  "write_env (sample_world c) = (\<lambda>path. WriteOk)"
  "platform (sample_world c) = Posix"
  "print_env (sample_world c) = ascii_console"
  "stdout (sample_world c) = []"
  by (simp_all add: sample_world_def)

lemma sample_resolve_simps [simp]:
  "sample_resolve (lit ''in.docx'') = 0"
  "sample_resolve (lit ''./in.docx'') = 0"
  "sample_resolve (lit ''out.txt'') = 1"
  "sample_resolve (lit ''missing.docx'') = 2"
  "sample_resolve (0xE9 # lit ''.docx'') = 2"
  "sample_resolve (0xE9 # lit ''.txt'') = 2"
  by (simp_all add: sample_resolve_def lit_def)

lemma ascii_console_lit: 
  "list_all (\<lambda>c. (of_char c :: nat) < 128) x \<Longrightarrow> ascii_console (lit x) = None"
  by (simp add: ascii_console_def lit_def list_all_iff)

lemma ascii_console_success [simp]:
  "ascii_console (success_line (lit ''out.txt'')) = None"
  "ascii_console (success_line (lit ''in.docx'')) = None"
  "ascii_console (success_line (lit ''./in.docx'')) = None"
  "ascii_console (success_line (0xE9 # lit ''.txt'')) =
     Some (Exn UnicodeEncodeError (lit ''ascii codec cannot encode character''))"
  by (simp_all add: ascii_console_def success_line_def lit_def)

lemma empty_full_texts:
  "full_text empty_doc = []" "full_text sole_empty_doc = []"
  by (simp_all add: empty_doc_def sole_empty_doc_def eval_defs)


lemma hello_text_lit: "full_text hello_doc = lit (''Hello'' @ [CHR 0x0A, CHR 0x0A] @ ''World'')"
  by (simp add: hello_full_text lit_def)

lemma hello_encoded_posix:
  "utf8_encode (translate_newlines (linesep Posix) (full_text hello_doc)) =
     Inr (''Hello'' @ [CHR 0x0A, CHR 0x0A] @ ''World'')"
  unfolding linesep.simps translate_newlines_posix hello_text_lit
  by (rule utf8_encode_lit) simp

lemma hello_encoded_windows:
  "utf8_encode (translate_newlines (linesep Windows) (full_text hello_doc)) =
     Inr (''Hello'' @ [CHR 0x0D, CHR 0x0A, CHR 0x0D, CHR 0x0A] @ ''World'')"
proof -
  have "translate_newlines (linesep Windows) (full_text hello_doc) =
      lit (''Hello'' @ [CHR 0x0D, CHR 0x0A, CHR 0x0D, CHR 0x0A] @ ''World'')"
    by (simp add: hello_full_text translate_newlines_def lit_def)
  then show ?thesis
    using utf8_encode_lit[of "''Hello'' @ [CHR 0x0D, CHR 0x0A, CHR 0x0D, CHR 0x0A] @ ''World''"]
    by simp
qed

lemma unicode_encoded:
  "utf8_encode [0xE9, 0x20AC, 0x1F600] =
     Inr [CHR 0xC3, CHR 0xA9, CHR 0xE2, CHR 0x82, CHR 0xAC, CHR 0xF0, CHR 0x9F, CHR 0x98, CHR 0x80]"
  by (simp add: utf8_char_def char_of_eq_iff)

lemma sample_zip:
  "x \<noteq> [] \<Longrightarrow> \<exists>z. ZipFile sample_lib (''PK'' @ x) = Inr z
      \<and> z_read z (lit ''word/document.xml'') = Inr x"
  by (simp add: sample_lib_def z_read_def)

lemma sample_write_hello:
  "write_text (sample_world c) path (full_text hello_doc) =
     (Inr (), (sample_world c)\<lparr>files := [0 \<mapsto> c](sample_resolve path \<mapsto>
        ''Hello'' @ [CHR 0x0A, CHR 0x0A] @ ''World'')\<rparr>)"
  using write_text_ok[of "sample_world c" path "full_text hello_doc"
      "''Hello'' @ [CHR 0x0A, CHR 0x0A] @ ''World''"] hello_encoded_posix
  by simp

lemmas console_defs = ascii_console_def error_line_def success_line_def no_item_message_def
  lit_def

lemma sample_load_failures:
  "load_document sample_lib (sample_world c) (lit ''missing.docx'') =
     Inl (Exn FileNotFoundError
      (lit ''[Errno 2] No such file or directory: '' @ [39] @ lit ''missing.docx'' @ [39]))"
  "load_document sample_lib (sample_world ''not a zip'') (lit ''in.docx'') =
     Inl (Exn BadZipFile (lit ''File is not a zip file''))"
  "load_document sample_lib (sample_world ''PK'') (lit ''in.docx'') =
     Inl (Exn KeyError (no_item_message (lit ''word/document.xml'')))"
  "load_document sample_lib (sample_world ''PK<<'') (lit ''in.docx'') =
     Inl (Exn ParseError (lit ''syntax error: line 1, column 0''))"
  "load_document sample_lib (sample_world c) (0xE9 # lit ''.docx'') =
     Inl (Exn FileNotFoundError
      (lit ''[Errno 2] No such file or directory: '' @ [39] @ (0xE9 # lit ''.docx'') @ [39]))"
  by (simp_all add: load_document_def open_rb_def sample_lib_def z_read_def)

lemma sample_fail:
  assumes "load_document sample_lib (sample_world c) fp = Inl e"
    and "ascii_console (error_line e) = None"
  shows "read_docx sample_lib (sample_world c) fp op =
     (Inr False, (sample_world c)\<lparr>stdout := [error_line e]\<rparr>)"
  using read_docx_load_fails[OF assms(1), of op] handler_ok[of "sample_world c" e] assms(2)
  by simp

lemma sample_fail_raises:
  assumes "load_document sample_lib (sample_world c) fp = Inl e"
    and "ascii_console (error_line e) = Some e'"
  shows "read_docx sample_lib (sample_world c) fp op = (Inl e', sample_world c)"
  using read_docx_load_fails[OF assms(1), of op] handler_raises[of "sample_world c" e e'] assms(2)
  by simp

lemma sample_failed_runs:
  "read_docx sample_lib (sample_world c) (lit ''missing.docx'') op =
     (Inr False, (sample_world c)\<lparr>stdout := [error_line (Exn FileNotFoundError
        (lit ''[Errno 2] No such file or directory: '' @ [39] @ lit ''missing.docx'' @ [39]))]\<rparr>)"
  "read_docx sample_lib (sample_world ''not a zip'') (lit ''in.docx'') op =
     (Inr False, (sample_world ''not a zip'')\<lparr>stdout :=
        [error_line (Exn BadZipFile (lit ''File is not a zip file''))]\<rparr>)"
  "read_docx sample_lib (sample_world ''PK'') (lit ''in.docx'') op =
     (Inr False, (sample_world ''PK'')\<lparr>stdout :=
        [error_line (Exn KeyError (no_item_message (lit ''word/document.xml'')))]\<rparr>)"
  "read_docx sample_lib (sample_world ''PK<<'') (lit ''in.docx'') op =
     (Inr False, (sample_world ''PK<<'')\<lparr>stdout :=
        [error_line (Exn ParseError (lit ''syntax error: line 1, column 0''))]\<rparr>)"
  "read_docx sample_lib (sample_world c) (0xE9 # lit ''.docx'') op =
     (Inl (Exn UnicodeEncodeError (lit ''ascii codec cannot encode character'')), sample_world c)"
proof -
  show "read_docx sample_lib (sample_world c) (lit ''missing.docx'') op =
     (Inr False, (sample_world c)\<lparr>stdout := [error_line (Exn FileNotFoundError
        (lit ''[Errno 2] No such file or directory: '' @ [39] @ lit ''missing.docx'' @ [39]))]\<rparr>)"
    by (rule sample_fail[OF sample_load_failures(1)]) (simp add: console_defs)
  show "read_docx sample_lib (sample_world ''not a zip'') (lit ''in.docx'') op =
     (Inr False, (sample_world ''not a zip'')\<lparr>stdout :=
        [error_line (Exn BadZipFile (lit ''File is not a zip file''))]\<rparr>)"
    by (rule sample_fail[OF sample_load_failures(2)]) (simp add: console_defs)
  show "read_docx sample_lib (sample_world ''PK'') (lit ''in.docx'') op =
     (Inr False, (sample_world ''PK'')\<lparr>stdout :=
        [error_line (Exn KeyError (no_item_message (lit ''word/document.xml'')))]\<rparr>)"
    by (rule sample_fail[OF sample_load_failures(3)]) (simp add: console_defs)
  show "read_docx sample_lib (sample_world ''PK<<'') (lit ''in.docx'') op =
     (Inr False, (sample_world ''PK<<'')\<lparr>stdout :=
        [error_line (Exn ParseError (lit ''syntax error: line 1, column 0''))]\<rparr>)"
    by (rule sample_fail[OF sample_load_failures(4)]) (simp add: console_defs)
  show "read_docx sample_lib (sample_world c) (0xE9 # lit ''.docx'') op =
     (Inl (Exn UnicodeEncodeError (lit ''ascii codec cannot encode character'')), sample_world c)"
    by (rule sample_fail_raises[OF sample_load_failures(5)]) (simp add: console_defs)
qed

lemma sample_try_failures:
  "read_docx_try sample_lib (sample_world ''PK'') (lit ''in.docx'') op =
     (Inl (Exn KeyError (no_item_message (lit ''word/document.xml''))), sample_world ''PK'')"
  "read_docx_try sample_lib (sample_world c) (0xE9 # lit ''.docx'') op =
     (Inl (Exn FileNotFoundError
        (lit ''[Errno 2] No such file or directory: '' @ [39] @ (0xE9 # lit ''.docx'') @ [39])),
      sample_world c)"
  by (simp_all add: read_docx_try_def sample_load_failures)

lemma sample_run_hello:
  "ascii_console (success_line path) = None \<Longrightarrow>
   read_docx sample_lib (sample_world ''PKhello'') (lit ''in.docx'') path =
     (Inr True, (sample_world ''PKhello'')\<lparr>files := [0 \<mapsto> ''PKhello''](sample_resolve path \<mapsto>
        ''Hello'' @ [CHR 0x0A, CHR 0x0A] @ ''World''), stdout := [success_line path]\<rparr>)"
  using read_docx_succeeds[OF sample_load_hello sample_write_hello, of path] by simp


section \<open>The claims\<close>

subsection \<open>Which runs a paragraph's text comes from\<close>

text \<open>
  Claim C1, as the code has it. The text of every paragraph is the concatenation of the
  fragments recorded for it; every such fragment was collected under a \<open>w:r\<close> element
  that lies below that paragraph element, at any depth; and in a document where no
  paragraph element contains another one, every such run belongs to that paragraph: its
  nearest enclosing paragraph is the one whose text it enters.
\<close>

theorem paragraph_text_from_runs_below:
  "extract_text tree = map (\<lambda>(pp, srcs). concat (map snd srcs)) (paragraph_sources tree)
   \<and> (\<forall>(pp, srcs) \<in> set (paragraph_sources tree). \<forall>(rp, s) \<in> set srcs.
         \<exists>q r. q \<noteq> [] \<and> rp = pp @ q \<and> subtree_at tree rp = Some r \<and> tag r = w_r)
   \<and> (no_nested_paragraphs tree \<longrightarrow> runs_scoped tree)"
proof (intro conjI)
  show "extract_text tree = map (\<lambda>(pp, srcs). concat (map snd srcs)) (paragraph_sources tree)"
    by (rule paragraph_sources_text)
  show "\<forall>(pp, srcs) \<in> set (paragraph_sources tree). \<forall>(rp, s) \<in> set srcs.
         \<exists>q r. q \<noteq> [] \<and> rp = pp @ q \<and> subtree_at tree rp = Some r \<and> tag r = w_r"
  proof (clarify)
    fix pp srcs rp s
    assume "(pp, srcs) \<in> set (paragraph_sources tree)" "(rp, s) \<in> set srcs"
    then obtain p where a: "(pp, p) \<in> set (findall_at [] tree w_p)"
      and b: "(rp, s) \<in> set (run_sources pp p)"
      by (auto simp: paragraph_sources_def)
    from run_sources_inside[OF a b] obtain q r where
      "q \<noteq> []" "rp = pp @ q" "subtree_at p q = Some r" "tag r = w_r" "subtree_at tree pp = Some p"
      by blast
    then show "\<exists>q r. q \<noteq> [] \<and> rp = pp @ q \<and> subtree_at tree rp = Some r \<and> tag r = w_r"
      by (auto simp: subtree_at_append)
  qed
  show "no_nested_paragraphs tree \<longrightarrow> runs_scoped tree"
    using runs_scoped_without_nesting by blast
qed

text \<open>
  The theorem on the three-paragraph document: which run each fragment comes from.
\<close>

theorem paragraph_text_from_runs_below_witness:
  "no_nested_paragraphs hello_doc \<and> runs_scoped hello_doc
   \<and> paragraph_sources hello_doc =
       [([0, 0], [([0, 0, 0], lit ''Hello'')]), ([0, 1], []),
        ([0, 2], [([0, 2, 0], lit ''Wor''), ([0, 2, 1], lit ''ld'')])]
   \<and> extract_text hello_doc = [lit ''Hello'', [], lit ''World'']"
proof -
  have n: "no_nested_paragraphs hello_doc"
    by (simp add: no_nested_paragraphs_def hello_doc_def eval_defs)
  have s: "paragraph_sources hello_doc =
       [([0, 0], [([0, 0, 0], lit ''Hello'')]), ([0, 1], []),
        ([0, 2], [([0, 2, 0], lit ''Wor''), ([0, 2, 1], lit ''ld'')])]"
    by (simp add: paragraph_sources_def run_sources_def hello_doc_def eval_defs)
  from paragraph_text_from_runs_below[of hello_doc] n s show ?thesis
    by (simp add: lit_def)
qed

text \<open>
  With a paragraph nested in a paragraph, \<open>p.findall('.//w:r')\<close> on the outer
  paragraph reaches the run of the inner one: that run, whose own paragraph is the inner
  element, enters the text of the outer paragraph as well.
\<close>

theorem nested_paragraph_counterexample:
  "extract_text nested_doc = [lit ''x'', lit ''x'']
   \<and> paragraph_sources nested_doc =
       [([0, 0], [([0, 0, 0, 0], lit ''x'')]), ([0, 0, 0], [([0, 0, 0, 0], lit ''x'')])]
   \<and> own_paragraph nested_doc [0, 0, 0, 0] = Some [0, 0, 0]
   \<and> \<not> runs_scoped nested_doc"
  by (simp add: runs_scoped_def paragraph_sources_def run_sources_def own_paragraph_def
      nested_doc_def eval_defs)

subsection \<open>One string per paragraph\<close>

text \<open>
  Claim C2, as the code has it. The extraction returns one string per \<open>w:p\<close> element
  below the root, in document order. When there is at least one paragraph and no
  paragraph string contains a line break, the joined text splits back into exactly
  these strings: it has as many lines as there are paragraphs and one newline fewer.
  With no paragraph the joined text is empty.
\<close>

theorem one_string_per_paragraph:
  "length (extract_text tree) = num_paragraphs tree
   \<and> extract_text tree = map paragraph_text (findall tree w_p)
   \<and> (1 \<le> num_paragraphs tree \<and> (\<forall>s \<in> set (extract_text tree). (10::nat) \<notin> set s) \<longrightarrow>
        split_lines (full_text tree) = extract_text tree
        \<and> length (split_lines (full_text tree)) = num_paragraphs tree
        \<and> Suc (count_list (full_text tree) ((10::nat))) = num_paragraphs tree)
   \<and> (num_paragraphs tree = 0 \<longrightarrow> full_text tree = [])"
proof (intro conjI impI)
  show n: "length (extract_text tree) = num_paragraphs tree"
    by (rule length_extract_text)
  show "extract_text tree = map paragraph_text (findall tree w_p)"
    by (rule extract_text_map)
  assume a: "1 \<le> num_paragraphs tree \<and> (\<forall>s \<in> set (extract_text tree). (10::nat) \<notin> set s)"
  then have ne: "extract_text tree \<noteq> []" using n by auto
  from a have nl: "\<forall>s \<in> set (extract_text tree). (10::nat) \<notin> set s" by simp
  show s: "split_lines (full_text tree) = extract_text tree"
    unfolding full_text_def by (rule split_lines_join[OF nl ne])
  show "length (split_lines (full_text tree)) = num_paragraphs tree"
    using s n by simp
  show "Suc (count_list (full_text tree) ((10::nat))) = num_paragraphs tree"
    unfolding full_text_def using count_newline_join[OF nl ne] n by simp
next
  assume "num_paragraphs tree = 0"
  then have "extract_text tree = []"
    using length_extract_text[of tree] by simp
  then show "full_text tree = []" by (simp add: full_text_def)
qed

text \<open>
  The theorem on the three-paragraph document.
\<close>

theorem one_string_per_paragraph_witness:
  "1 \<le> num_paragraphs hello_doc
   \<and> list_all (\<lambda>s. (10::nat) \<notin> set s) (extract_text hello_doc)
   \<and> num_paragraphs hello_doc = 3
   \<and> split_lines (full_text hello_doc) = [lit ''Hello'', [], lit ''World'']
   \<and> count_list (full_text hello_doc) ((10::nat)) = 2"
proof -
  have t: "extract_text hello_doc = [lit ''Hello'', [], lit ''World'']" by (rule hello_doc_texts)
  have n: "num_paragraphs hello_doc = 3"
    by (simp add: num_paragraphs_def hello_doc_def el_def)
  have h: "1 \<le> num_paragraphs hello_doc \<and> (\<forall>s \<in> set (extract_text hello_doc). (10::nat) \<notin> set s)"
    by (simp add: n t lit_def)
  from one_string_per_paragraph[of hello_doc] h t n show ?thesis
    by (simp add: list_all_iff)
qed

text \<open>
  A text element may hold a line break. A document with one paragraph whose text is
  \<open>a\<close>, newline, \<open>b\<close> gives one paragraph string and a joined text of two lines with
  one newline, not zero.
\<close>

theorem newline_in_text_counterexample:
  "num_paragraphs multiline_doc = 1
   \<and> extract_text multiline_doc = [[97, 10, 98]]
   \<and> \<not> (length (split_lines (full_text multiline_doc)) = num_paragraphs multiline_doc)
   \<and> \<not> (int (count_list (full_text multiline_doc) ((10::nat))) = int (num_paragraphs multiline_doc) - 1)"
  by (simp add: num_paragraphs_def multiline_doc_def eval_defs)

subsection \<open>Paragraphs without text\<close>




subsection \<open>Concatenation without separator\<close>

text \<open>
  Claim C4. The text of a paragraph is the concatenation of the collected fragments in
  the order the loops meet them, run after run and text element after text element,
  with nothing in between: its length is the sum of the fragments' lengths.
\<close>

theorem paragraph_text_is_concatenation:
  "paragraph_text p = concat (loop_r (findall p w_r) [])
   \<and> loop_r (findall p w_r) [] =
       concat (map (\<lambda>r. concat (map fragment (findall r w_t))) (findall p w_r))
   \<and> length (paragraph_text p) = sum_list (map length (loop_r (findall p w_r) []))"
  by (simp add: paragraph_text_def join_empty_sep loop_r_fragments length_concat)

subsection \<open>The written file\<close>

text \<open>
  Claim C5, as the code has it. The joined text is the first paragraph string followed
  by each further string preceded by one newline, so nothing follows the last one. When
  the document loads, the destination can be written and the text consists of Unicode
  scalar values, the destination holds the UTF-8 encoding of the joined text in which
  every newline is written as the platform's line separator: decoding the bytes gives
  that text back. On a POSIX platform this is the joined text itself, and for the
  paragraph strings Hello, empty, World the file holds Hello, two newlines, World; on
  Windows it holds Hello, two times carriage return and newline, World. The code points \<open>U+00E9\<close>, \<open>U+20AC\<close>, \<open>U+1F600\<close> are written as two, three and four
  bytes. The function returns \<open>True\<close> when the success message can be printed.
\<close>

theorem write_joins_with_newlines:
  assumes "files w (resolve w file_path) = Some content" and "ZipFile l content = Inr z"
    and "z_read z (lit ''word/document.xml'') = Inr xml" and "fromstring l xml = Inr tree"
    and "write_env w output_path = WriteOk"
    and "\<forall>c \<in> set (join newline (extract_text tree)). scalar_value c"
  shows "join newline (extract_text tree) =
         (case extract_text tree of [] \<Rightarrow> [] | p # ps \<Rightarrow> p @ concat (map (\<lambda>q. newline @ q) ps))
     \<and> (\<exists>bs. utf8_encode (translate_newlines (linesep (platform w))
                  (join newline (extract_text tree))) = Inr bs
           \<and> files (snd (read_docx l w file_path output_path)) (resolve w output_path) = Some bs
           \<and> utf8_decode bs =
               Some (translate_newlines (linesep (platform w)) (join newline (extract_text tree))))
     \<and> (platform w = Posix \<longrightarrow>
          translate_newlines (linesep (platform w)) (join newline (extract_text tree)) =
            join newline (extract_text tree))
     \<and> (platform w = Posix \<and> extract_text tree = [lit ''Hello'', [], lit ''World''] \<longrightarrow>
          files (snd (read_docx l w file_path output_path)) (resolve w output_path) =
            Some (''Hello'' @ [CHR 0x0A, CHR 0x0A] @ ''World''))
     \<and> (platform w = Windows \<and> extract_text tree = [lit ''Hello'', [], lit ''World''] \<longrightarrow>
          files (snd (read_docx l w file_path output_path)) (resolve w output_path) =
            Some (''Hello'' @ [CHR 0x0D, CHR 0x0A, CHR 0x0D, CHR 0x0A] @ ''World''))
     \<and> (extract_text tree = [[0xE9, 0x20AC, 0x1F600]] \<longrightarrow>
          files (snd (read_docx l w file_path output_path)) (resolve w output_path) =
            Some [CHR 0xC3, CHR 0xA9, CHR 0xE2, CHR 0x82, CHR 0xAC,
                  CHR 0xF0, CHR 0x9F, CHR 0x98, CHR 0x80])
     \<and> (print_env w (success_line output_path) = None \<longrightarrow>
          fst (read_docx l w file_path output_path) = Inr True)"
proof -
  let ?txt = "join newline (extract_text tree)"
  let ?out = "translate_newlines (linesep (platform w)) ?txt"
  have ld: "load_document l w file_path = Inr tree"
    using assms(1-4) by (auto simp: load_document_Inr)
  have "list_all scalar_value ?out"
    using assms(6) by (intro translate_newlines_scalar) (simp add: list_all_iff)
  then obtain bs where enc: "utf8_encode ?out = Inr bs"
    using utf8_encode_scalar by blast
  have wt: "write_text w output_path (full_text tree) =
      (Inr (), w\<lparr>files := (files w)(resolve w output_path \<mapsto> bs)\<rparr>)"
    using write_text_ok[OF assms(5), of "full_text tree" bs] enc by (simp add: full_text_def)
  have f: "files (snd (read_docx l w file_path output_path)) (resolve w output_path) = Some bs"
    using read_docx_written[OF ld wt] by simp
  have j: "?txt =
         (case extract_text tree of [] \<Rightarrow> [] | p # ps \<Rightarrow> p @ concat (map (\<lambda>q. newline @ q) ps))"
    by (cases "extract_text tree") (simp_all add: join_Cons)
  have d: "utf8_decode bs = Some ?out"
    by (rule utf8_decode_encode[OF enc])
  have p: "?out = ?txt" if "platform w = Posix"
    using that by (simp add: translate_newlines_posix)
  have h: "files (snd (read_docx l w file_path output_path)) (resolve w output_path) =
            Some (''Hello'' @ [CHR 0x0A, CHR 0x0A] @ ''World'')"
    if "platform w = Posix \<and> extract_text tree = [lit ''Hello'', [], lit ''World'']"
  proof -
    from that have "full_text tree = full_text hello_doc"
      by (simp add: full_text_def hello_doc_texts)
    with that enc hello_encoded_posix have "bs = ''Hello'' @ [CHR 0x0A, CHR 0x0A] @ ''World''"
      by (simp add: full_text_def)
    with f show ?thesis by simp
  qed
  have hw: "files (snd (read_docx l w file_path output_path)) (resolve w output_path) =
            Some (''Hello'' @ [CHR 0x0D, CHR 0x0A, CHR 0x0D, CHR 0x0A] @ ''World'')"
    if "platform w = Windows \<and> extract_text tree = [lit ''Hello'', [], lit ''World'']"
  proof -
    from that have "full_text tree = full_text hello_doc"
      by (simp add: full_text_def hello_doc_texts)
    with that enc hello_encoded_windows
    have "bs = ''Hello'' @ [CHR 0x0D, CHR 0x0A, CHR 0x0D, CHR 0x0A] @ ''World''"
      by (simp add: full_text_def)
    with f show ?thesis by simp
  qed
  have u: "files (snd (read_docx l w file_path output_path)) (resolve w output_path) =
            Some [CHR 0xC3, CHR 0xA9, CHR 0xE2, CHR 0x82, CHR 0xAC,
                  CHR 0xF0, CHR 0x9F, CHR 0x98, CHR 0x80]"
    if "extract_text tree = [[0xE9, 0x20AC, 0x1F600]]"
  proof -
    from that have "?txt = [0xE9, 0x20AC, 0x1F600]" by simp
    moreover have "translate_newlines (linesep (platform w)) [0xE9, 0x20AC, 0x1F600]
        = [0xE9, 0x20AC, 0x1F600]"
      by (rule translate_no_newline) simp
    ultimately have "utf8_encode [0xE9, 0x20AC, 0x1F600] = Inr bs"
      using enc by simp
    with unicode_encoded f show ?thesis by simp
  qed
  have s: "fst (read_docx l w file_path output_path) = Inr True"
    if "print_env w (success_line output_path) = None"
    using read_docx_succeeds[OF ld wt that] by simp
  from j enc f d p h hw u s show ?thesis by blast
qed

text \<open>
  The theorem on a package that holds the three-paragraph document, and on one that
  holds the three code points.
\<close>

theorem write_joins_with_newlines_witness:
  "files (sample_world ''PKhello'') (resolve (sample_world ''PKhello'') (lit ''in.docx'')) = Some ''PKhello''
   \<and> (\<exists>z. ZipFile sample_lib ''PKhello'' = Inr z \<and> z_read z (lit ''word/document.xml'') = Inr ''hello'')
   \<and> fromstring sample_lib ''hello'' = Inr hello_doc
   \<and> write_env (sample_world ''PKhello'') (lit ''out.txt'') = WriteOk
   \<and> list_all scalar_value (join newline (extract_text hello_doc))
   \<and> platform (sample_world ''PKhello'') = Posix
   \<and> extract_text hello_doc = [lit ''Hello'', [], lit ''World'']
   \<and> files (snd (read_docx sample_lib (sample_world ''PKhello'') (lit ''in.docx'') (lit ''out.txt'')))
        (resolve (sample_world ''PKhello'') (lit ''out.txt''))
       = Some (''Hello'' @ [CHR 0x0A, CHR 0x0A] @ ''World'')
   \<and> print_env (sample_world ''PKhello'') (success_line (lit ''out.txt'')) = None
   \<and> fst (read_docx sample_lib (sample_world ''PKhello'') (lit ''in.docx'') (lit ''out.txt'')) = Inr True
   \<and> fromstring sample_lib ''unicode'' = Inr unicode_doc
   \<and> extract_text unicode_doc = [[0xE9, 0x20AC, 0x1F600]]
   \<and> files (snd (read_docx sample_lib (sample_world ''PKunicode'') (lit ''in.docx'') (lit ''out.txt'')))
        (resolve (sample_world ''PKunicode'') (lit ''out.txt''))
       = Some [CHR 0xC3, CHR 0xA9, CHR 0xE2, CHR 0x82, CHR 0xAC, CHR 0xF0, CHR 0x9F, CHR 0x98, CHR 0x80]
   \<and> platform ((sample_world ''PKhello'')\<lparr>platform := Windows\<rparr>) = Windows
   \<and> files (snd (read_docx sample_lib ((sample_world ''PKhello'')\<lparr>platform := Windows\<rparr>)
          (lit ''in.docx'') (lit ''out.txt'')))
        (resolve ((sample_world ''PKhello'')\<lparr>platform := Windows\<rparr>) (lit ''out.txt''))
       = Some (''Hello'' @ [CHR 0x0D, CHR 0x0A, CHR 0x0D, CHR 0x0A] @ ''World'')"
proof -
  obtain z where z: "ZipFile sample_lib ''PKhello'' = Inr z"
    "z_read z (lit ''word/document.xml'') = Inr ''hello''"
    using sample_zip[of "''hello''"] by auto
  obtain z' where z': "ZipFile sample_lib ''PKunicode'' = Inr z'"
    "z_read z' (lit ''word/document.xml'') = Inr ''unicode''"
    using sample_zip[of "''unicode''"] by auto
  have a: "files (sample_world ''PKhello'') (resolve (sample_world ''PKhello'') (lit ''in.docx''))
      = Some ''PKhello''"
    by simp
  have a': "files (sample_world ''PKunicode'') (resolve (sample_world ''PKunicode'') (lit ''in.docx''))
      = Some ''PKunicode''"
    by simp
  have d: "fromstring sample_lib ''hello'' = Inr hello_doc"
    "fromstring sample_lib ''unicode'' = Inr unicode_doc"
    by (simp_all add: sample_lib_def)
  have e: "write_env (sample_world c) (lit ''out.txt'') = WriteOk" for c
    by simp
  have t: "extract_text unicode_doc = [[0xE9, 0x20AC, 0x1F600]]"
    by (simp add: unicode_doc_def eval_defs)
  have v: "\<forall>c \<in> set (join newline (extract_text hello_doc)). scalar_value c"
    by (simp add: hello_doc_texts newline_def lit_def scalar_value_def)
  have v': "\<forall>c \<in> set (join newline (extract_text unicode_doc)). scalar_value c"
    by (simp add: t scalar_value_def)
  have p: "print_env (sample_world ''PKhello'') (success_line (lit ''out.txt'')) = None"
    by simp
  note h = write_joins_with_newlines[OF a z d(1) e v]
  note u = write_joins_with_newlines[OF a' z' d(2) e v']
  have h1: "files (snd (read_docx sample_lib (sample_world ''PKhello'') (lit ''in.docx'') (lit ''out.txt'')))
        (resolve (sample_world ''PKhello'') (lit ''out.txt''))
       = Some (''Hello'' @ [CHR 0x0A, CHR 0x0A] @ ''World'')"
    using h hello_doc_texts by simp
  have h2: "fst (read_docx sample_lib (sample_world ''PKhello'') (lit ''in.docx'') (lit ''out.txt'')) = Inr True"
    using h p by blast
  have u1: "files (snd (read_docx sample_lib (sample_world ''PKunicode'') (lit ''in.docx'') (lit ''out.txt'')))
        (resolve (sample_world ''PKunicode'') (lit ''out.txt''))
       = Some [CHR 0xC3, CHR 0xA9, CHR 0xE2, CHR 0x82, CHR 0xAC, CHR 0xF0, CHR 0x9F, CHR 0x98, CHR 0x80]"
    using u t by blast
  have v2: "list_all scalar_value (join newline (extract_text hello_doc))"
    using v by (simp add: list_all_iff)
  let ?ww = "(sample_world ''PKhello'')\<lparr>platform := Windows\<rparr>"
  have aw: "files ?ww (resolve ?ww (lit ''in.docx'')) = Some ''PKhello''"
    by simp
  have ew: "write_env ?ww (lit ''out.txt'') = WriteOk"
    by simp
  have pw: "platform ?ww = Windows"
    by simp
  note x = write_joins_with_newlines[OF aw z d(1) ew v]
  have w1: "files (snd (read_docx sample_lib ?ww (lit ''in.docx'') (lit ''out.txt'')))
        (resolve ?ww (lit ''out.txt''))
       = Some (''Hello'' @ [CHR 0x0D, CHR 0x0A, CHR 0x0D, CHR 0x0A] @ ''World'')"
    using x pw hello_doc_texts by blast
  show ?thesis
    using a z d e[of "''PKhello''"] v2 hello_doc_texts h1 p h2 t u1 pw w1
    by (intro conjI exI[of _ z]) simp_all
qed

text \<open>
  On Windows a file opened in text mode writes carriage return and line feed for every
  newline: for the paragraph strings Hello, empty, World the file does not hold Hello,
  two newlines, World.
\<close>

theorem windows_newline_counterexample:
  "extract_text hello_doc = [lit ''Hello'', [], lit ''World'']
   \<and> load_document sample_lib ((sample_world ''PKhello'')\<lparr>platform := Windows\<rparr>) (lit ''in.docx'')
       = Inr hello_doc
   \<and> fst (read_docx sample_lib ((sample_world ''PKhello'')\<lparr>platform := Windows\<rparr>)
            (lit ''in.docx'') (lit ''out.txt'')) = Inr True
   \<and> files (snd (read_docx sample_lib ((sample_world ''PKhello'')\<lparr>platform := Windows\<rparr>)
            (lit ''in.docx'') (lit ''out.txt''))) 1
       = Some (''Hello'' @ [CHR 0x0D, CHR 0x0A, CHR 0x0D, CHR 0x0A] @ ''World'')
   \<and> files (snd (read_docx sample_lib ((sample_world ''PKhello'')\<lparr>platform := Windows\<rparr>)
            (lit ''in.docx'') (lit ''out.txt''))) 1
       \<noteq> Some (''Hello'' @ [CHR 0x0A, CHR 0x0A] @ ''World'')"
proof -
  let ?w = "(sample_world ''PKhello'')\<lparr>platform := Windows\<rparr>"
  have ld: "load_document sample_lib ?w (lit ''in.docx'') = Inr hello_doc"
    by (simp add: sample_defs)
  have wt: "write_text ?w (lit ''out.txt'') (full_text hello_doc) =
      (Inr (), ?w\<lparr>files := (files ?w)(resolve ?w (lit ''out.txt'') \<mapsto>
         ''Hello'' @ [CHR 0x0D, CHR 0x0A, CHR 0x0D, CHR 0x0A] @ ''World'')\<rparr>)"
    by (rule write_text_ok) (simp_all add: hello_encoded_windows[unfolded linesep.simps])
  have p: "print_env ?w (success_line (lit ''out.txt'')) = None" by simp
  from read_docx_succeeds[OF ld wt p] ld hello_doc_texts show ?thesis by simp
qed

subsection \<open>No output when extraction fails\<close>



subsection \<open>Failures and the result False\<close>

text \<open>
  Claim C7, as the code has it. The function returns \<open>True\<close> exactly when the document
  was loaded, the text was written and the success message was printed. The \<open>try\<close>
  block fails exactly when loading fails, the write fails or printing the success
  message raises. Its exception is caught: when the error message can be printed the
  function prints it and returns \<open>False\<close>; when printing it raises, that exception
  leaves the function. An archive without the member \<open>word/document.xml\<close> gives
  \<open>False\<close> with the message of the \<open>KeyError\<close>, when that message can be printed.
\<close>

theorem failures_become_false_if_printable:
  "(fst (read_docx l w file_path output_path) = Inr True \<longleftrightarrow>
      (\<exists>tree w'. load_document l w file_path = Inr tree
         \<and> write_text w output_path (full_text tree) = (Inr (), w')
         \<and> print_env w (success_line output_path) = None))
   \<and> (\<forall>e w'. read_docx_try l w file_path output_path = (Inl e, w') \<longleftrightarrow>
         load_document l w file_path = Inl e \<and> w' = w
         \<or> (\<exists>tree. load_document l w file_path = Inr tree
               \<and> write_text w output_path (full_text tree) = (Inl e, w'))
         \<or> (\<exists>tree. load_document l w file_path = Inr tree
               \<and> write_text w output_path (full_text tree) = (Inr (), w')
               \<and> print_env w (success_line output_path) = Some e))
   \<and> (\<forall>e w'. read_docx_try l w file_path output_path = (Inl e, w')
          \<and> print_env w (error_line e) = None \<longrightarrow>
         read_docx l w file_path output_path =
           (Inr False, w'\<lparr>stdout := stdout w' @ [error_line e]\<rparr>))
   \<and> (\<forall>e w' e'. read_docx_try l w file_path output_path = (Inl e, w')
          \<and> print_env w (error_line e) = Some e' \<longrightarrow>
         read_docx l w file_path output_path = (Inl e', w'))
   \<and> (\<forall>c z. files w (resolve w file_path) = Some c \<and> ZipFile l c = Inr z
          \<and> z (lit ''word/document.xml'') = None
          \<and> print_env w (error_line (Exn KeyError (no_item_message (lit ''word/document.xml'')))) = None
        \<longrightarrow> read_docx l w file_path output_path =
           (Inr False, w\<lparr>stdout := stdout w @
              [error_line (Exn KeyError (no_item_message (lit ''word/document.xml'')))]\<rparr>))"
proof (intro conjI allI impI)
  show "fst (read_docx l w file_path output_path) = Inr True \<longleftrightarrow>
      (\<exists>tree w'. load_document l w file_path = Inr tree
         \<and> write_text w output_path (full_text tree) = (Inr (), w')
         \<and> print_env w (success_line output_path) = None)"
  proof (cases rule: read_docx_cases[of l w file_path output_path])
    case (load_failed e)
    then show ?thesis by (simp add: handler_not_True)
  next
    case (write_failed tree e w')
    then show ?thesis by (simp add: handler_not_True)
  next
    case (message_failed tree w' e)
    then show ?thesis by (simp add: handler_not_True)
  next
    case (succeeded tree w')
    then show ?thesis by simp
  qed
next
  fix e w'
  show "read_docx_try l w file_path output_path = (Inl e, w') \<longleftrightarrow>
         load_document l w file_path = Inl e \<and> w' = w
         \<or> (\<exists>tree. load_document l w file_path = Inr tree
               \<and> write_text w output_path (full_text tree) = (Inl e, w'))
         \<or> (\<exists>tree. load_document l w file_path = Inr tree
               \<and> write_text w output_path (full_text tree) = (Inr (), w')
               \<and> print_env w (success_line output_path) = Some e)"
    by (rule read_docx_try_Inl)
next
  fix e w'
  assume a: "read_docx_try l w file_path output_path = (Inl e, w')
          \<and> print_env w (error_line e) = None"
  then have "print_env w' (error_line e) = None"
    using read_docx_try_print_env[of l w file_path output_path "Inl e" w'] by simp
  with a show "read_docx l w file_path output_path =
           (Inr False, w'\<lparr>stdout := stdout w' @ [error_line e]\<rparr>)"
    by (simp add: read_docx_def handler_ok)
next
  fix e w' e'
  assume a: "read_docx_try l w file_path output_path = (Inl e, w')
          \<and> print_env w (error_line e) = Some e'"
  then have "print_env w' (error_line e) = Some e'"
    using read_docx_try_print_env[of l w file_path output_path "Inl e" w'] by simp
  with a show "read_docx l w file_path output_path = (Inl e', w')"
    by (simp add: read_docx_def handler_raises)
next
  fix c z
  assume a: "files w (resolve w file_path) = Some c \<and> ZipFile l c = Inr z
          \<and> z (lit ''word/document.xml'') = None
          \<and> print_env w (error_line (Exn KeyError (no_item_message (lit ''word/document.xml'')))) = None"
  then have "load_document l w file_path =
     Inl (Exn KeyError (no_item_message (lit ''word/document.xml'')))"
    by (simp add: load_document_def open_rb_def z_read_def)
  with a show "read_docx l w file_path output_path =
           (Inr False, w\<lparr>stdout := stdout w @
              [error_line (Exn KeyError (no_item_message (lit ''word/document.xml'')))]\<rparr>)"
    by (simp add: read_docx_load_fails handler_ok)
qed

text \<open>
  An archive without the member, a missing file whose name the console cannot print,
  and a successful run.
\<close>

theorem failures_become_false_if_printable_witness:
  "read_docx_try sample_lib (sample_world ''PK'') (lit ''in.docx'') (lit ''out.txt'') =
     (Inl (Exn KeyError (no_item_message (lit ''word/document.xml''))), sample_world ''PK'')
   \<and> print_env (sample_world ''PK'')
        (error_line (Exn KeyError (no_item_message (lit ''word/document.xml'')))) = None
   \<and> read_docx sample_lib (sample_world ''PK'') (lit ''in.docx'') (lit ''out.txt'') =
       (Inr False, (sample_world ''PK'')\<lparr>stdout :=
          [error_line (Exn KeyError (no_item_message (lit ''word/document.xml'')))]\<rparr>)
   \<and> read_docx_try sample_lib (sample_world ''PKhello'') (0xE9 # lit ''.docx'') (lit ''out.txt'') =
       (Inl (Exn FileNotFoundError
          (lit ''[Errno 2] No such file or directory: '' @ [39] @ (0xE9 # lit ''.docx'') @ [39])),
        sample_world ''PKhello'')
   \<and> print_env (sample_world ''PKhello'')
        (error_line (Exn FileNotFoundError
          (lit ''[Errno 2] No such file or directory: '' @ [39] @ (0xE9 # lit ''.docx'') @ [39])))
       = Some (Exn UnicodeEncodeError (lit ''ascii codec cannot encode character''))
   \<and> read_docx sample_lib (sample_world ''PKhello'') (0xE9 # lit ''.docx'') (lit ''out.txt'') =
       (Inl (Exn UnicodeEncodeError (lit ''ascii codec cannot encode character'')),
        sample_world ''PKhello'')
   \<and> fst (read_docx sample_lib (sample_world ''PKhello'') (lit ''in.docx'') (lit ''out.txt''))
       = Inr True"
proof -
  let ?k = "Exn KeyError (no_item_message (lit ''word/document.xml''))"
  let ?f = "Exn FileNotFoundError
          (lit ''[Errno 2] No such file or directory: '' @ [39] @ (0xE9 # lit ''.docx'') @ [39])"
  let ?u = "Exn UnicodeEncodeError (lit ''ascii codec cannot encode character'')"
  note t1 = failures_become_false_if_printable[of sample_lib "sample_world ''PK''" "lit ''in.docx''" "lit ''out.txt''"]
  note t2 = failures_become_false_if_printable[of sample_lib "sample_world ''PKhello''" "0xE9 # lit ''.docx''" "lit ''out.txt''"]
  note t3 = failures_become_false_if_printable[of sample_lib "sample_world ''PKhello''" "lit ''in.docx''" "lit ''out.txt''"]
  have a: "read_docx_try sample_lib (sample_world ''PK'') (lit ''in.docx'') (lit ''out.txt'') =
     (Inl ?k, sample_world ''PK'')"
    by (rule sample_try_failures(1))
  have b: "print_env (sample_world ''PK'') (error_line ?k) = None"
    by (simp add: console_defs)
  have c: "read_docx sample_lib (sample_world ''PK'') (lit ''in.docx'') (lit ''out.txt'') =
       (Inr False, (sample_world ''PK'')\<lparr>stdout := stdout (sample_world ''PK'') @ [error_line ?k]\<rparr>)"
    using t1 a b by blast
  have d: "read_docx_try sample_lib (sample_world ''PKhello'') (0xE9 # lit ''.docx'') (lit ''out.txt'') =
       (Inl ?f, sample_world ''PKhello'')"
    by (rule sample_try_failures(2))
  have e: "print_env (sample_world ''PKhello'') (error_line ?f) = Some ?u"
    by (simp add: console_defs)
  have f: "read_docx sample_lib (sample_world ''PKhello'') (0xE9 # lit ''.docx'') (lit ''out.txt'') =
       (Inl ?u, sample_world ''PKhello'')"
    using t2 d e by blast
  have g: "\<exists>tree w'. load_document sample_lib (sample_world ''PKhello'') (lit ''in.docx'') = Inr tree
         \<and> write_text (sample_world ''PKhello'') (lit ''out.txt'') (full_text tree) = (Inr (), w')
         \<and> print_env (sample_world ''PKhello'') (success_line (lit ''out.txt'')) = None"
    using sample_load_hello sample_write_hello[of "''PKhello''" "lit ''out.txt''"] by simp
  have h: "fst (read_docx sample_lib (sample_world ''PKhello'') (lit ''in.docx'') (lit ''out.txt''))
       = Inr True"
    using t3 g by blast
  from a b c d e f h show ?thesis by simp
qed

text \<open>
  The input path does not exist and contains a character the console cannot encode:
  the handler's \<open>print\<close> raises, and the caller gets that exception instead of
  \<open>False\<close>.
\<close>

theorem handler_print_raises_counterexample:
  "files (sample_world ''PKhello'') (resolve (sample_world ''PKhello'') (0xE9 # lit ''.docx'')) = None
   \<and> read_docx sample_lib (sample_world ''PKhello'') (0xE9 # lit ''.docx'') (lit ''out.txt'') =
       (Inl (Exn UnicodeEncodeError (lit ''ascii codec cannot encode character'')),
        sample_world ''PKhello'')
   \<and> fst (read_docx sample_lib (sample_world ''PKhello'') (0xE9 # lit ''.docx'') (lit ''out.txt''))
       \<noteq> Inr False"
  by (simp add: sample_failed_runs(5))

subsection \<open>Determinism\<close>




subsection \<open>Only the destination is written\<close>

text \<open>
  Claim C9, as the code has it. Every file other than the one the destination path
  names holds after the call what it held before; so the input file is unchanged
  whenever the two paths do not name the same file. The rest of the environment is
  unchanged, except that at most one line is added to standard output.
\<close>

theorem only_destination_is_written:
  "(\<forall>i. i \<noteq> resolve w output_path \<longrightarrow>
       files (snd (read_docx l w file_path output_path)) i = files w i)
   \<and> (resolve w file_path \<noteq> resolve w output_path \<longrightarrow>
        files (snd (read_docx l w file_path output_path)) (resolve w file_path)
          = files w (resolve w file_path))
   \<and> resolve (snd (read_docx l w file_path output_path)) = resolve w
   \<and> write_env (snd (read_docx l w file_path output_path)) = write_env w
   \<and> platform (snd (read_docx l w file_path output_path)) = platform w
   \<and> print_env (snd (read_docx l w file_path output_path)) = print_env w
   \<and> (stdout (snd (read_docx l w file_path output_path)) = stdout w
      \<or> (\<exists>line. stdout (snd (read_docx l w file_path output_path)) = stdout w @ [line]))"
  using read_docx_stdout[of l w file_path output_path]
  by (simp add: read_docx_frame read_docx_env)

text \<open>
  The input file, an unrelated file and standard output after a successful run.
\<close>

theorem only_destination_is_written_witness:
  "resolve (sample_world ''PKhello'') (lit ''in.docx'') \<noteq> resolve (sample_world ''PKhello'') (lit ''out.txt'')
   \<and> files (snd (read_docx sample_lib (sample_world ''PKhello'') (lit ''in.docx'') (lit ''out.txt'')))
        (resolve (sample_world ''PKhello'') (lit ''in.docx'')) = Some ''PKhello''
   \<and> files (snd (read_docx sample_lib (sample_world ''PKhello'') (lit ''in.docx'') (lit ''out.txt''))) 2
       = None
   \<and> stdout (snd (read_docx sample_lib (sample_world ''PKhello'') (lit ''in.docx'') (lit ''out.txt'')))
       = stdout (sample_world ''PKhello'') @ [success_line (lit ''out.txt'')]"
proof -
  have a: "resolve (sample_world ''PKhello'') (lit ''in.docx'') \<noteq> resolve (sample_world ''PKhello'') (lit ''out.txt'')"
    "2 \<noteq> resolve (sample_world ''PKhello'') (lit ''out.txt'')"
    by simp_all
  have b: "files (sample_world ''PKhello'') (resolve (sample_world ''PKhello'') (lit ''in.docx'')) = Some ''PKhello''"
    "files (sample_world ''PKhello'') 2 = None"
    by simp_all
  have s: "stdout (snd (read_docx sample_lib (sample_world ''PKhello'') (lit ''in.docx'') (lit ''out.txt'')))
       = stdout (sample_world ''PKhello'') @ [success_line (lit ''out.txt'')]"
    by (simp add: sample_run_hello)
  note t = only_destination_is_written[of "sample_world ''PKhello''" "lit ''out.txt''" sample_lib "lit ''in.docx''"]
  from t a b have "files (snd (read_docx sample_lib (sample_world ''PKhello'') (lit ''in.docx'') (lit ''out.txt'')))
        (resolve (sample_world ''PKhello'') (lit ''in.docx'')) = Some ''PKhello''"
    "files (snd (read_docx sample_lib (sample_world ''PKhello'') (lit ''in.docx'') (lit ''out.txt''))) 2 = None"
    by metis+
  with a(1) s show ?thesis by (simp only: simp_thms)
qed

text \<open>
  When the input path is also given as the destination, or another path that names the
  same file, a successful run replaces the package by the extracted text. Standard
  output changes in every successful run.
\<close>

theorem input_overwritten_counterexample:
  "files (sample_world ''PKhello'') (resolve (sample_world ''PKhello'') (lit ''in.docx'')) = Some ''PKhello''
   \<and> fst (read_docx sample_lib (sample_world ''PKhello'') (lit ''in.docx'') (lit ''in.docx'')) = Inr True
   \<and> files (snd (read_docx sample_lib (sample_world ''PKhello'') (lit ''in.docx'') (lit ''in.docx'')))
        (resolve (sample_world ''PKhello'') (lit ''in.docx''))
       = Some (''Hello'' @ [CHR 0x0A, CHR 0x0A] @ ''World'')
   \<and> files (snd (read_docx sample_lib (sample_world ''PKhello'') (lit ''in.docx'') (lit ''in.docx'')))
        (resolve (sample_world ''PKhello'') (lit ''in.docx''))
       \<noteq> files (sample_world ''PKhello'') (resolve (sample_world ''PKhello'') (lit ''in.docx''))
   \<and> lit ''in.docx'' \<noteq> lit ''./in.docx''
   \<and> files (snd (read_docx sample_lib (sample_world ''PKhello'') (lit ''in.docx'') (lit ''./in.docx'')))
        (resolve (sample_world ''PKhello'') (lit ''in.docx''))
       = Some (''Hello'' @ [CHR 0x0A, CHR 0x0A] @ ''World'')
   \<and> stdout (snd (read_docx sample_lib (sample_world ''PKhello'') (lit ''in.docx'') (lit ''out.txt'')))
       = [success_line (lit ''out.txt'')]
   \<and> stdout (snd (read_docx sample_lib (sample_world ''PKhello'') (lit ''in.docx'') (lit ''out.txt'')))
       \<noteq> stdout (sample_world ''PKhello'')"
  by (simp add: sample_run_hello) (simp add: lit_def)

subsection \<open>A body without paragraphs\<close>

text \<open>
  Claim C10, as the code has it. For a package that loads and whose markup has no
  \<open>w:p\<close> element below the root, with a destination that can be written, the
  destination is an empty file after the call. The function returns \<open>True\<close> when the
  success message can be printed, and does not when printing it raises.
\<close>

theorem no_paragraphs_gives_empty_file:
  assumes "files w (resolve w file_path) = Some content" and "ZipFile l content = Inr z"
    and "z_read z (lit ''word/document.xml'') = Inr xml" and "fromstring l xml = Inr tree"
    and "num_paragraphs tree = 0" and "write_env w output_path = WriteOk"
  shows "files (snd (read_docx l w file_path output_path)) (resolve w output_path) = Some []
     \<and> (print_env w (success_line output_path) = None \<longrightarrow>
          fst (read_docx l w file_path output_path) = Inr True)
     \<and> (\<forall>e. print_env w (success_line output_path) = Some e \<longrightarrow>
          fst (read_docx l w file_path output_path) \<noteq> Inr True)"
proof -
  have ld: "load_document l w file_path = Inr tree"
    using assms(1-4) by (auto simp: load_document_Inr)
  have "extract_text tree = []"
    using length_extract_text[of tree] assms(5) by simp
  then have e: "full_text tree = []"
    by (simp add: full_text_def)
  have wt: "write_text w output_path (full_text tree) =
      (Inr (), w\<lparr>files := (files w)(resolve w output_path \<mapsto> [])\<rparr>)"
    by (rule write_text_ok[OF assms(6)]) (simp add: e translate_newlines_def)
  have f: "files (snd (read_docx l w file_path output_path)) (resolve w output_path) = Some []"
    using read_docx_written[OF ld wt] by simp
  have t: "fst (read_docx l w file_path output_path) = Inr True"
    if "print_env w (success_line output_path) = None"
    using read_docx_succeeds[OF ld wt that] by simp
  have n: "fst (read_docx l w file_path output_path) \<noteq> Inr True"
    if "print_env w (success_line output_path) = Some e" for e
    using read_docx_print_raises[OF ld wt that] by (simp add: handler_not_True)
  from f t n show ?thesis by blast
qed

text \<open>
  The theorem on a package whose body is empty.
\<close>

theorem no_paragraphs_gives_empty_file_witness:
  "files (sample_world ''PKempty'') (resolve (sample_world ''PKempty'') (lit ''in.docx'')) = Some ''PKempty''
   \<and> (\<exists>z. ZipFile sample_lib ''PKempty'' = Inr z \<and> z_read z (lit ''word/document.xml'') = Inr ''empty'')
   \<and> fromstring sample_lib ''empty'' = Inr empty_doc
   \<and> num_paragraphs empty_doc = 0
   \<and> write_env (sample_world ''PKempty'') (lit ''out.txt'') = WriteOk
   \<and> print_env (sample_world ''PKempty'') (success_line (lit ''out.txt'')) = None
   \<and> fst (read_docx sample_lib (sample_world ''PKempty'') (lit ''in.docx'') (lit ''out.txt'')) = Inr True
   \<and> files (snd (read_docx sample_lib (sample_world ''PKempty'') (lit ''in.docx'') (lit ''out.txt'')))
        (resolve (sample_world ''PKempty'') (lit ''out.txt'')) = Some []"
proof -
  obtain z where z: "ZipFile sample_lib ''PKempty'' = Inr z"
    "z_read z (lit ''word/document.xml'') = Inr ''empty''"
    using sample_zip[of "''empty''"] by auto
  have a: "files (sample_world ''PKempty'') (resolve (sample_world ''PKempty'') (lit ''in.docx'')) = Some ''PKempty''"
    by simp
  have d: "fromstring sample_lib ''empty'' = Inr empty_doc"
    by (simp add: sample_lib_def)
  have e: "num_paragraphs empty_doc = 0"
    by (simp add: num_paragraphs_def empty_doc_def el_def)
  have f: "write_env (sample_world ''PKempty'') (lit ''out.txt'') = WriteOk"
    by simp
  have p: "print_env (sample_world ''PKempty'') (success_line (lit ''out.txt'')) = None"
    by simp
  note t = no_paragraphs_gives_empty_file[OF a z d e f]
  from t p have r: "fst (read_docx sample_lib (sample_world ''PKempty'') (lit ''in.docx'') (lit ''out.txt'')) = Inr True"
    "files (snd (read_docx sample_lib (sample_world ''PKempty'') (lit ''in.docx'') (lit ''out.txt'')))
        (resolve (sample_world ''PKempty'') (lit ''out.txt'')) = Some []"
    by blast+
  show ?thesis
    using a z d e f p r by (intro conjI exI[of _ z]) assumption+
qed

text \<open>
  With a destination whose name the console cannot print, the empty file is written
  and the function returns \<open>False\<close>; with a destination that cannot be opened, no
  file is written and the function returns \<open>False\<close>.
\<close>

theorem unprintable_destination_counterexample:
  "load_document sample_lib (sample_world ''PKempty'') (lit ''in.docx'') = Inr empty_doc
   \<and> num_paragraphs empty_doc = 0
   \<and> fst (read_docx sample_lib (sample_world ''PKempty'') (lit ''in.docx'') (0xE9 # lit ''.txt''))
       = Inr False
   \<and> files (snd (read_docx sample_lib (sample_world ''PKempty'') (lit ''in.docx'') (0xE9 # lit ''.txt'')))
        (resolve (sample_world ''PKempty'') (0xE9 # lit ''.txt'')) = Some []
   \<and> fst (read_docx sample_lib
        ((sample_world ''PKempty'')\<lparr>write_env :=
           (\<lambda>path. OpenFails (Exn OSError (lit ''[Errno 13] Permission denied'')))\<rparr>)
        (lit ''in.docx'') (lit ''out.txt'')) = Inr False
   \<and> files (snd (read_docx sample_lib
        ((sample_world ''PKempty'')\<lparr>write_env :=
           (\<lambda>path. OpenFails (Exn OSError (lit ''[Errno 13] Permission denied'')))\<rparr>)
        (lit ''in.docx'') (lit ''out.txt''))) 1 = None"
proof -
  let ?u = "Exn UnicodeEncodeError (lit ''ascii codec cannot encode character'')"
  let ?o = "Exn OSError (lit ''[Errno 13] Permission denied'')"
  let ?w = "sample_world ''PKempty''"
  let ?d = "?w\<lparr>write_env := (\<lambda>path. OpenFails ?o)\<rparr>"
  have e: "num_paragraphs empty_doc = 0"
    by (simp add: num_paragraphs_def empty_doc_def el_def)
  have wt: "write_text ?w (0xE9 # lit ''.txt'') (full_text empty_doc) =
      (Inr (), ?w\<lparr>files := (files ?w)(resolve ?w (0xE9 # lit ''.txt'') \<mapsto> [])\<rparr>)"
    by (rule write_text_ok) (simp_all add: empty_full_texts translate_newlines_def)
  have p: "print_env ?w (success_line (0xE9 # lit ''.txt'')) = Some ?u"
    by simp
  have h: "print_env (?w\<lparr>files := (files ?w)(resolve ?w (0xE9 # lit ''.txt'') \<mapsto> [])\<rparr>) (error_line ?u) = None"
    by (simp add: console_defs)
  have r1: "read_docx sample_lib ?w (lit ''in.docx'') (0xE9 # lit ''.txt'') =
      (Inr False, ?w\<lparr>files := (files ?w)(resolve ?w (0xE9 # lit ''.txt'') \<mapsto> []),
         stdout := [error_line ?u]\<rparr>)"
    using read_docx_print_raises[OF sample_load_empty wt p] handler_ok[OF h] by simp
  have ld: "load_document sample_lib ?d (lit ''in.docx'') = Inr empty_doc"
    by (simp add: sample_defs)
  have wd: "write_text ?d (lit ''out.txt'') (full_text empty_doc) = (Inl ?o, ?d)"
    by (simp add: write_text_def)
  have hd: "print_env ?d (error_line ?o) = None"
    by (simp add: console_defs)
  have r2: "read_docx sample_lib ?d (lit ''in.docx'') (lit ''out.txt'') =
      (Inr False, ?d\<lparr>stdout := [error_line ?o]\<rparr>)"
    using read_docx_write_raises[OF ld wd] handler_ok[OF hd] by simp
  show ?thesis
    by (simp add: sample_load_empty e r1 r2)
qed

end
